theory Spec2Isabelle
  imports
    Complex_Main
    "HOL-Library.Char_ord"
    "HOL-Library.List_Lexorder"
    "HOL-Library.Product_Lexorder"
    "HOL-Library.Multiset"
begin

section \<open>Python values and builtins\<close>

text \<open>
  A Python \<open>str\<close> is a \<open>string\<close>, one \<open>char\<close> per code point (code points below 256).
  A Python \<open>float\<close> is a finite real, an infinity or NaN; comparing NaN with anything
  is false, as in IEEE 754.
\<close>

datatype pyfloat = Fin real | PInf | NInf | NaN

fun float_lt0 :: "pyfloat \<Rightarrow> bool" where
  "float_lt0 (Fin x) = (x < 0)"
| "float_lt0 PInf = False"
| "float_lt0 NInf = True"
| "float_lt0 NaN = False"

fun float_ge0 :: "pyfloat \<Rightarrow> bool" where
  "float_ge0 (Fin x) = (0 \<le> x)"
| "float_ge0 PInf = True"
| "float_ge0 NInf = False"
| "float_ge0 NaN = False"

datatype pyval = PyNone | PyInt int | PyFloat pyfloat | PyStr string | PyTuple "pyval list"

text \<open>
  Python exceptions: the class and the message. For the builtins \<open>float()\<close> and
  \<open>int()\<close> the message is given without its last part, which names the argument or its
  type.
\<close>

datatype error =
    ValueError string
  | TypeError string
  | OverflowError string
  | IntegrityError string

text \<open>
  The parsers of Python itself are not part of the repository; they are parameters of
  the model. \<open>float_of_str s = None\<close> stands for \<open>float(s)\<close> raising \<open>ValueError\<close>,
  \<open>int_of_str s = None\<close> for \<open>int(s)\<close> raising \<open>ValueError\<close>, \<open>float_of_int n = None\<close>
  for \<open>float(n)\<close> raising \<open>OverflowError\<close>, and \<open>strptime_ok s\<close> says that
  \<open>datetime.strptime(s, '%Y-%m-%d')\<close> does not raise.
\<close>

record builtins =
  float_of_str :: "string \<Rightarrow> pyfloat option"
  int_of_str :: "string \<Rightarrow> int option"
  float_of_int :: "int \<Rightarrow> pyfloat option"
  strptime_ok :: "string \<Rightarrow> bool"

fun py_float :: "builtins \<Rightarrow> pyval \<Rightarrow> error + pyfloat" where
  "py_float py (PyFloat x) = Inr x"
| "py_float py (PyInt n) =
     (case float_of_int py n of
        None \<Rightarrow> Inl (OverflowError ''int too large to convert to float'')
      | Some x \<Rightarrow> Inr x)"
| "py_float py (PyStr s) =
     (case float_of_str py s of
        None \<Rightarrow> Inl (ValueError ''could not convert string to float'')
      | Some x \<Rightarrow> Inr x)"
| "py_float py PyNone = Inl (TypeError ''float() argument must be a string or a real number'')"
| "py_float py (PyTuple vs) = Inl (TypeError ''float() argument must be a string or a real number'')"

definition trunc :: "real \<Rightarrow> int" where
  "trunc x = (if 0 \<le> x then \<lfloor>x\<rfloor> else \<lceil>x\<rceil>)"

fun py_int :: "builtins \<Rightarrow> pyval \<Rightarrow> error + int" where
  "py_int py (PyInt n) = Inr n"
| "py_int py (PyFloat (Fin x)) = Inr (trunc x)"
| "py_int py (PyFloat PInf) = Inl (OverflowError ''cannot convert float infinity to integer'')"
| "py_int py (PyFloat NInf) = Inl (OverflowError ''cannot convert float infinity to integer'')"
| "py_int py (PyFloat NaN) = Inl (ValueError ''cannot convert float NaN to integer'')"
| "py_int py (PyStr s) =
     (case int_of_str py s of
        None \<Rightarrow> Inl (ValueError ''invalid literal for int() with base 10'')
      | Some n \<Rightarrow> Inr n)"
| "py_int py PyNone = Inl (TypeError ''int() argument must be a string, a bytes-like object or a real number'')"
| "py_int py (PyTuple vs) = Inl (TypeError ''int() argument must be a string, a bytes-like object or a real number'')"

text \<open>
  \<open>str.isspace\<close> on one character, for the code points below 256, and \<open>str.strip()\<close>.
\<close>

definition py_isspace :: "char \<Rightarrow> bool" where
  "py_isspace c = (of_char c \<in> {9, 10, 11, 12, 13, 28, 29, 30, 31, 32, 133, 160 :: nat})"

definition strip :: "string \<Rightarrow> string" where
  "strip s = rev (dropWhile py_isspace (rev (dropWhile py_isspace s)))"

text \<open>
  A sample of the builtins for evaluation on concrete inputs. It is a part of Python's
  parsers and not the whole: it accepts only texts that Python accepts, with Python's
  result, and refuses every other text, also where Python accepts it. It reads a decimal
  literal (an optional sign, then at most 4300 digits and nothing else) as an int, reads
  the same as a float when the number is at most 2^53 in size, and accepts a date of the
  form \<open>YYYY-MM-DD\<close> with all digits written, a year from 0001, a month from 01 to 12
  and a day from 01 to 28. The texts it refuses in the evaluations below (\<open>abc\<close>, \<open>x\<close>)
  are refused by Python too.
\<close>

definition digit_val :: "char \<Rightarrow> nat option" where
  "digit_val c = (let n = of_char c :: nat in if 48 \<le> n \<and> n \<le> 57 then Some (n - 48) else None)"

fun digits_val :: "nat \<Rightarrow> string \<Rightarrow> nat option" where
  "digits_val acc [] = Some acc"
| "digits_val acc (c # cs) =
     (case digit_val c of None \<Rightarrow> None | Some d \<Rightarrow> digits_val (10 * acc + d) cs)"

definition decimal_literal :: "string \<Rightarrow> int option" where
  "decimal_literal s =
     (if length s > 4300 then None
      else case s of
        [] \<Rightarrow> None
      | c # cs \<Rightarrow>
          if c = CHR ''-'' then (if cs = [] then None else map_option (\<lambda>n. - int n) (digits_val 0 cs))
          else if c = CHR ''+'' then (if cs = [] then None else map_option int (digits_val 0 cs))
          else map_option int (digits_val 0 (c # cs)))"

definition exact_float :: "int \<Rightarrow> pyfloat option" where
  "exact_float n = (if \<bar>n\<bar> \<le> 2 ^ 53 then Some (Fin (of_int n)) else None)"

definition in_range :: "nat \<Rightarrow> nat \<Rightarrow> string \<Rightarrow> bool" where
  "in_range lo hi s = (case digits_val 0 s of None \<Rightarrow> False | Some n \<Rightarrow> lo \<le> n \<and> n \<le> hi)"

definition padded_date :: "string \<Rightarrow> bool" where
  "padded_date s =
     (length s = 10 \<and> s ! 4 = CHR ''-'' \<and> s ! 7 = CHR ''-'' \<and>
      in_range 1 9999 (take 4 s) \<and> in_range 1 12 (take 2 (drop 5 s)) \<and>
      in_range 1 28 (drop 8 s))"

definition sample_builtins :: builtins where
  "sample_builtins =
     \<lparr> float_of_str = (\<lambda>s. case decimal_literal s of None \<Rightarrow> None | Some n \<Rightarrow> exact_float n),
       int_of_str = decimal_literal,
       float_of_int = exact_float,
       strptime_ok = padded_date \<rparr>"

section \<open>Validators\<close>

text \<open>
  \<open>validate_exercise_name\<close>: \<open>not name or not name.strip()\<close> raises the first
  \<open>ValueError\<close>, a stripped length above 150 the second.
\<close>

definition validate_exercise_name :: "string \<Rightarrow> error + string" where
  "validate_exercise_name name =
     (if name = [] \<or> strip name = [] then Inl (ValueError ''Exercise name cannot be empty.'')
      else if length (strip name) > 150 then Inl (ValueError ''Exercise name too long.'')
      else Inr (strip name))"

text \<open>
  \<open>validate_weight_reps\<close>: both conversions sit in one \<open>try\<close>, and \<open>except Exception\<close>
  turns any failure of either into the same \<open>ValueError\<close>. The arguments are the texts
  of the two entry fields.
\<close>

definition validate_weight_reps :: "builtins \<Rightarrow> string \<Rightarrow> string \<Rightarrow> error + (pyfloat \<times> int)" where
  "validate_weight_reps py w r =
     (case py_float py (PyStr w) of
        Inl e \<Rightarrow> Inl (ValueError ''Weight must be a number and reps an integer.'')
      | Inr weight \<Rightarrow>
          (case py_int py (PyStr r) of
             Inl e \<Rightarrow> Inl (ValueError ''Weight must be a number and reps an integer.'')
           | Inr reps \<Rightarrow>
               if float_lt0 weight \<or> reps \<le> 0 then Inl (ValueError ''Invalid weight/reps.'')
               else Inr (weight, reps)))"


section \<open>The store\<close>

text \<open>
  The three tables of \<open>create_tables\<close>, each a list of rows in rowid order. A column
  holds what the code of the repository writes into it: text for the \<open>TEXT\<close> columns,
  a float for \<open>weight\<close>, integers elsewhere, and only \<open>rir\<close> may be \<open>NULL\<close>. The
  ids are \<open>AUTOINCREMENT\<close>: \<open>seq_*\<close> is the table's entry in \<open>sqlite_sequence\<close>,
  and the ids the store hands out are unbounded integers (the end of the 64-bit rowid
  range is not modelled). Failures of the storage medium are outside the model.
\<close>

record exercise_row =
  ex_id :: int
  ex_name :: string
  ex_body_part :: string
  ex_equipment :: string
  ex_notes :: string
  ex_subgroup :: string

record session_row =
  sess_id :: int
  sess_exercise_id :: int
  sess_date :: string
  sess_notes :: string

record set_row =
  set_id :: int
  set_session_id :: int
  set_index :: int
  set_weight :: pyfloat
  set_reps :: int
  set_rir :: "int option"
  set_unit :: string

record db =
  exercises :: "exercise_row list"
  sessions :: "session_row list"
  sets :: "set_row list"
  seq_exercises :: int
  seq_sessions :: int
  seq_sets :: int

definition empty_db :: db where
  "empty_db = \<lparr> exercises = [], sessions = [], sets = [],
                seq_exercises = 0, seq_sessions = 0, seq_sets = 0 \<rparr>"

definition next_rowid :: "int list \<Rightarrow> int \<Rightarrow> int" where
  "next_rowid ids seq = fold max ids seq + 1"

text \<open>The \<open>sqlite3\<close> module refuses to bind a Python int outside the 64-bit range.\<close>

definition fits_int64 :: "int \<Rightarrow> bool" where
  "fits_int64 n = (- (2 ^ 63) \<le> n \<and> n < 2 ^ 63)"

definition int_too_large :: error where
  "int_too_large = OverflowError ''Python int too large to convert to SQLite INTEGER''"


text \<open>
  The \<open>INSERT INTO exercises\<close> statement, shared by \<open>ensure_preloaded\<close> and
  \<open>add_exercise\<close>: \<open>name\<close> is \<open>UNIQUE\<close>, compared byte by byte.
\<close>

definition insert_exercise ::
  "db \<Rightarrow> string \<Rightarrow> string \<Rightarrow> string \<Rightarrow> string \<Rightarrow> string \<Rightarrow> error + (db \<times> int)" where
  "insert_exercise d name body_part equipment notes subgroup =
     (if name \<in> set (map ex_name (exercises d))
      then Inl (IntegrityError ''UNIQUE constraint failed: exercises.name'')
      else let i = next_rowid (map ex_id (exercises d)) (seq_exercises d) in
        Inr (d\<lparr> exercises := exercises d @
                 [\<lparr> ex_id = i, ex_name = name, ex_body_part = body_part,
                    ex_equipment = equipment, ex_notes = notes, ex_subgroup = subgroup \<rparr>],
               seq_exercises := i \<rparr>, i))"

definition PRELOADED_EXERCISES :: "(string \<times> string \<times> string \<times> string \<times> string) list" where
  "PRELOADED_EXERCISES =
     [(''Squat'', ''Back'', ''Barbell'', ''Add Elevation'', ''Lower Back''),
      (''Pull Ups'', ''Back'', ''Bodyweight'', ''Slow and Controlled'', ''Vertical Mower''),
      (''Hammer Curls'', ''Biceps'', ''Dumbbells'', ''Add Back Pulling'', ''Brachioradialis'')]"

fun preload :: "db \<Rightarrow> (string \<times> string \<times> string \<times> string \<times> string) list \<Rightarrow> db" where
  "preload d [] = d"
| "preload d ((n, b, e, no, sg) # exs) =
     (case insert_exercise d n b e no sg of
        Inl err \<Rightarrow> preload d exs
      | Inr (d', i) \<Rightarrow> preload d' exs)"

definition ensure_preloaded :: "db \<Rightarrow> db" where
  "ensure_preloaded d = (if length (exercises d) = 0 then preload d PRELOADED_EXERCISES else d)"

text \<open>\<open>add_exercise\<close> strips every field and turns the \<open>IntegrityError\<close> into a \<open>ValueError\<close>.\<close>

definition add_exercise ::
  "db \<Rightarrow> string \<Rightarrow> string \<Rightarrow> string \<Rightarrow> string \<Rightarrow> string \<Rightarrow> error + (db \<times> int)" where
  "add_exercise d name body_part equipment notes subgroup =
     (case insert_exercise d (strip name) (strip body_part) (strip equipment) (strip notes)
             (strip subgroup) of
        Inl (IntegrityError m) \<Rightarrow> Inl (ValueError ''Exercise already exists.'')
      | Inl e \<Rightarrow> Inl e
      | Inr r \<Rightarrow> Inr r)"

text \<open>
  \<open>update_exercise\<close> has no \<open>try\<close>: the \<open>UPDATE\<close> fails when a row with this id exists
  and another row already has the new name; an unknown id changes nothing.
\<close>

definition update_exercise ::
  "db \<Rightarrow> int \<Rightarrow> string \<Rightarrow> string \<Rightarrow> string \<Rightarrow> string \<Rightarrow> string \<Rightarrow> error + db" where
  "update_exercise d id' name body_part equipment notes subgroup =
     (if (\<exists>r \<in> set (exercises d). ex_id r = id') \<and>
         (\<exists>r \<in> set (exercises d). ex_id r \<noteq> id' \<and> ex_name r = strip name)
      then Inl (IntegrityError ''UNIQUE constraint failed: exercises.name'')
      else Inr (d\<lparr> exercises :=
                 map (\<lambda>r. if ex_id r = id'
                           then r\<lparr> ex_name := strip name, ex_body_part := strip body_part,
                                   ex_equipment := strip equipment, ex_notes := strip notes,
                                   ex_subgroup := strip subgroup \<rparr>
                           else r) (exercises d) \<rparr>))"

text \<open>
  Deleting goes through the foreign keys (\<open>PRAGMA foreign_keys = ON\<close>, both declared
  \<open>ON DELETE CASCADE\<close>): when the parent row exists, its children go with it.
\<close>

definition delete_exercise :: "db \<Rightarrow> int \<Rightarrow> db" where
  "delete_exercise d id' =
     (if id' \<in> set (map ex_id (exercises d)) then
        let gone = map sess_id (filter (\<lambda>s. sess_exercise_id s = id') (sessions d)) in
        d\<lparr> exercises := filter (\<lambda>e. ex_id e \<noteq> id') (exercises d),
           sessions := filter (\<lambda>s. sess_exercise_id s \<noteq> id') (sessions d),
           sets := filter (\<lambda>t. set_session_id t \<notin> set gone) (sets d) \<rparr>
      else d)"

definition delete_session :: "db \<Rightarrow> int \<Rightarrow> db" where
  "delete_session d session_id =
     (if session_id \<in> set (map sess_id (sessions d)) then
        d\<lparr> sessions := filter (\<lambda>s. sess_id s \<noteq> session_id) (sessions d),
           sets := filter (\<lambda>t. set_session_id t \<noteq> session_id) (sets d) \<rparr>
      else d)"

definition add_session :: "db \<Rightarrow> int \<Rightarrow> string \<Rightarrow> string \<Rightarrow> error + (db \<times> int)" where
  "add_session d exercise_id date_str notes =
     (if exercise_id \<notin> set (map ex_id (exercises d))
      then Inl (IntegrityError ''FOREIGN KEY constraint failed'')
      else let i = next_rowid (map sess_id (sessions d)) (seq_sessions d) in
        Inr (d\<lparr> sessions := sessions d @
                 [\<lparr> sess_id = i, sess_exercise_id = exercise_id, sess_date = date_str,
                    sess_notes = strip notes \<rparr>],
               seq_sessions := i \<rparr>, i))"

text \<open>
  \<open>add_set\<close>. \<open>str(rir).strip() != ''\<close> can only be false for a \<open>str\<close>: the text of
  \<open>None\<close>, of a number or of a tuple is never blank. The tuple of parameters is
  evaluated from left to right, then bound, then inserted: a NaN is bound as \<open>NULL\<close> and
  \<open>weight\<close> is \<open>NOT NULL\<close>; the foreign key is checked when the statement ends.
\<close>

fun str_strip_empty :: "pyval \<Rightarrow> bool" where
  "str_strip_empty (PyStr s) = (strip s = [])"
| "str_strip_empty v = False"

definition coerce_rir :: "builtins \<Rightarrow> pyval \<Rightarrow> error + int option" where
  "coerce_rir py rir =
     (if rir \<noteq> PyNone \<and> \<not> str_strip_empty rir
      then (case py_int py rir of Inl e \<Rightarrow> Inl e | Inr n \<Rightarrow> Inr (Some n))
      else Inr None)"

definition add_set ::
  "builtins \<Rightarrow> db \<Rightarrow> int \<Rightarrow> int \<Rightarrow> pyval \<Rightarrow> pyval \<Rightarrow> pyval \<Rightarrow> string \<Rightarrow> error + (db \<times> int)" where
  "add_set py d session_id set_idx weight reps rir unit =
     (case py_float py weight of
        Inl e \<Rightarrow> Inl e
      | Inr w \<Rightarrow>
     (case py_int py reps of
        Inl e \<Rightarrow> Inl e
      | Inr r \<Rightarrow>
     (case coerce_rir py rir of
        Inl e \<Rightarrow> Inl e
      | Inr ri \<Rightarrow>
          if \<not> (fits_int64 session_id \<and> fits_int64 set_idx \<and> fits_int64 r \<and>
                (case ri of None \<Rightarrow> True | Some n \<Rightarrow> fits_int64 n))
          then Inl int_too_large
          else if w = NaN then Inl (IntegrityError ''NOT NULL constraint failed: sets.weight'')
          else if session_id \<notin> set (map sess_id (sessions d))
          then Inl (IntegrityError ''FOREIGN KEY constraint failed'')
          else let i = next_rowid (map set_id (sets d)) (seq_sets d) in
            Inr (d\<lparr> sets := sets d @
                     [\<lparr> set_id = i, set_session_id = session_id, set_index = set_idx,
                        set_weight = w, set_reps = r, set_rir = ri, set_unit = unit \<rparr>],
                   seq_sets := i \<rparr>, i))))"

subsection \<open>Queries\<close>

text \<open>
  \<open>ORDER BY\<close> is a stable sort of the rows in rowid order, also when it is descending
  (\<open>rev (sort_key k (rev xs))\<close> keeps rows with equal keys in the order of \<open>xs\<close>); SQL
  leaves the order of rows with equal keys open, and no theorem below depends on it. \<open>COLLATE NOCASE\<close> folds
  the 26 upper-case ASCII letters and compares the texts byte by byte; \<open>MAX(date)\<close> and
  \<open>ORDER BY date\<close> compare the texts byte by byte.
\<close>

definition lower_ascii :: "char \<Rightarrow> char" where
  "lower_ascii c =
     (let n = of_char c :: nat in if 65 \<le> n \<and> n \<le> 90 then char_of (n + 32) else c)"

definition nocase :: "string \<Rightarrow> string" where
  "nocase s = map lower_ascii s"

definition last_session :: "db \<Rightarrow> int \<Rightarrow> string option" where
  "last_session d i =
     (case map sess_date (filter (\<lambda>s. sess_exercise_id s = i) (sessions d)) of
        [] \<Rightarrow> None
      | x # xs \<Rightarrow> Some (fold max xs x))"

definition get_exercises :: "db \<Rightarrow> (exercise_row \<times> string option) list" where
  "get_exercises d =
     sort_key (\<lambda>(e, l). (nocase (ex_body_part e), nocase (ex_name e)))
       (map (\<lambda>e. (e, last_session d (ex_id e))) (exercises d))"

definition get_sessions_for_exercise :: "db \<Rightarrow> int \<Rightarrow> (int \<times> string \<times> string) list" where
  "get_sessions_for_exercise d exercise_id =
     map (\<lambda>s. (sess_id s, sess_date s, sess_notes s))
       (rev (sort_key sess_date
          (rev (filter (\<lambda>s. sess_exercise_id s = exercise_id) (sessions d)))))"

definition get_sets_for_session ::
  "db \<Rightarrow> int \<Rightarrow> (int \<times> pyfloat \<times> int \<times> int option \<times> string) list" where
  "get_sets_for_session d session_id =
     map (\<lambda>t. (set_index t, set_weight t, set_reps t, set_rir t, set_unit t))
       (sort_key set_index (filter (\<lambda>t. set_session_id t = session_id) (sets d)))"

text \<open>
  \<open>get_last_set_for_exercise\<close>: the join, the two-column descending order, \<open>LIMIT 1\<close>,
  and \<open>r if r else (None, None, None, None)\<close>; a row of four columns is a non-empty
  tuple, hence true.
\<close>

definition exercise_sets :: "db \<Rightarrow> int \<Rightarrow> (session_row \<times> set_row) list" where
  "exercise_sets d exercise_id =
     concat (map (\<lambda>t. map (\<lambda>s. (s, t))
                (filter (\<lambda>s. set_session_id t = sess_id s \<and> sess_exercise_id s = exercise_id)
                   (sessions d)))
          (sets d))"

definition rir_val :: "int option \<Rightarrow> pyval" where
  "rir_val r = (case r of None \<Rightarrow> PyNone | Some n \<Rightarrow> PyInt n)"

definition set_tuple :: "set_row \<Rightarrow> pyval" where
  "set_tuple t =
     PyTuple [PyFloat (set_weight t), PyInt (set_reps t), rir_val (set_rir t), PyStr (set_unit t)]"

definition get_last_set_for_exercise :: "db \<Rightarrow> int \<Rightarrow> pyval" where
  "get_last_set_for_exercise d exercise_id =
     (case rev (sort_key (\<lambda>(s, t). (sess_date s, set_index t))
                 (rev (exercise_sets d exercise_id))) of
        [] \<Rightarrow> PyTuple [PyNone, PyNone, PyNone, PyNone]
      | (s, t) # rest \<Rightarrow> set_tuple t)"


section \<open>The tracker window\<close>

text \<open>
  The part of \<open>TrackerApp\<close> that holds data: the store, the cached exercise list, the
  selection of the exercise table (the ids, the table's item ids being \<open>str(id)\<close>), the
  pending buffer of sets with the table that shows it, and the texts of the date and
  note fields. A buffer row is the dict with the keys \<open>idx\<close>, \<open>weight\<close>, \<open>reps\<close>,
  \<open>rir\<close> and \<open>unit\<close>; an item of \<open>sets_tree\<close> is its item id with the five values
  shown.
\<close>

record buf_row =
  idx :: int
  weight :: pyval
  reps :: pyval
  rir :: pyval
  unit :: string

type_synonym tree_item = "string \<times> (int \<times> pyval \<times> pyval \<times> pyval \<times> string)"

record app =
  store :: db
  app_exercises :: "(exercise_row \<times> string option) list"
  ex_selection :: "int list"
  set_buffer :: "buf_row list"
  sets_tree :: "tree_item list"
  sets_selection :: "string list"
  date_text :: string
  note_text :: string

datatype dialog = ShowInfo string string | ShowError string string

text \<open>How a buffer row is shown: \<open>rir if rir is not None else ''\<close>.\<close>

definition shown_rir :: "pyval \<Rightarrow> pyval" where
  "shown_rir r = (if r \<noteq> PyNone then r else PyStr [])"

definition shown :: "buf_row \<Rightarrow> int \<times> pyval \<times> pyval \<times> pyval \<times> string" where
  "shown b = (idx b, weight b, reps b, shown_rir (rir b), unit b)"




text \<open>
  \<open>remove_set\<close>. \<open>tk\<close> is what \<open>Treeview.item(item, 'values')\<close> hands back for a cell
  holding a number or an empty text; Tk is not part of the repository. Every item has
  five values, so \<open>len(vals) > 4\<close> holds. Tk drops a deleted item from the selection.
\<close>

definition rebuild_row :: "(pyval \<Rightarrow> pyval) \<Rightarrow> nat \<times> tree_item \<Rightarrow> buf_row" where
  "rebuild_row tk p =
     (case p of (i, (item, (old_idx, w, r, ri, u))) \<Rightarrow>
        \<lparr> idx = int i, weight = tk w, reps = tk r,
          rir = (if tk ri \<noteq> PyStr [] then tk ri else PyNone), unit = u \<rparr>)"

definition remove_set :: "(pyval \<Rightarrow> pyval) \<Rightarrow> app \<Rightarrow> app \<times> dialog option" where
  "remove_set tk a =
     (if sets_selection a = [] then (a, Some (ShowInfo ''Select'' ''Select a set to remove.''))
      else
        let kept = filter (\<lambda>it. fst it \<notin> set (sets_selection a)) (sets_tree a);
            newbuf = map (rebuild_row tk) (List.enumerate 1 kept)
        in (a\<lparr> sets_tree := map (\<lambda>(it, b). (fst it, shown b)) (zip kept newbuf),
               set_buffer := newbuf,
               sets_selection := [] \<rparr>, None))"




section \<open>Invariants\<close>

text \<open>
  Referential integrity: every session belongs to an exercise of the store and every set
  to a session of the store, so that no row is an orphan.
\<close>

definition ref_integrity :: "db \<Rightarrow> bool" where
  "ref_integrity d \<longleftrightarrow>
     (\<forall>s\<in>set (sessions d). sess_exercise_id s \<in> set (map ex_id (exercises d))) \<and>
     (\<forall>t\<in>set (sets d). set_session_id t \<in> set (map sess_id (sessions d)))"

text \<open>
  The table shows the buffer when its items carry, in order, the values shown for the
  buffer rows; \<open>add_set_from_quick\<close>, \<open>on_session_select\<close> and \<open>remove_set\<close> itself leave
  the two in this state. \<open>reread tk (i, b)\<close> is the row that \<open>remove_set\<close> rebuilds at
  position \<open>i\<close> from an item showing the row \<open>b\<close>.
\<close>

definition tree_shows_buffer :: "app \<Rightarrow> bool" where
  "tree_shows_buffer a \<longleftrightarrow> map snd (sets_tree a) = map shown (set_buffer a)"

definition reread :: "(pyval \<Rightarrow> pyval) \<Rightarrow> nat \<times> buf_row \<Rightarrow> buf_row" where
  "reread tk p = rebuild_row tk (fst p, ([], shown (snd p)))"

section \<open>Sample data\<close>

text \<open>
  A small store for evaluation: two exercises; exercise 1 has a session on 2024-01-12
  with two sets and one on 2024-01-10 with one set, exercise 2 a session without sets.
\<close>

definition sample_log :: db where
  "sample_log =
     \<lparr> exercises =
         [\<lparr> ex_id = 1, ex_name = ''Squat'', ex_body_part = ''Back'', ex_equipment = ''Barbell'',
            ex_notes = ''Add Elevation'', ex_subgroup = ''Lower Back'' \<rparr>,
          \<lparr> ex_id = 2, ex_name = ''Pull Ups'', ex_body_part = ''Back'', ex_equipment = ''Bodyweight'',
            ex_notes = ''Slow and Controlled'', ex_subgroup = ''Vertical Mower'' \<rparr>],
       sessions =
         [\<lparr> sess_id = 1, sess_exercise_id = 1, sess_date = ''2024-01-12'', sess_notes = [] \<rparr>,
          \<lparr> sess_id = 2, sess_exercise_id = 1, sess_date = ''2024-01-10'', sess_notes = [] \<rparr>,
          \<lparr> sess_id = 3, sess_exercise_id = 2, sess_date = ''2024-01-11'', sess_notes = [] \<rparr>],
       sets =
         [\<lparr> set_id = 1, set_session_id = 1, set_index = 1, set_weight = Fin 105, set_reps = 8,
            set_rir = None, set_unit = ''lbs'' \<rparr>,
          \<lparr> set_id = 2, set_session_id = 1, set_index = 2, set_weight = Fin 105, set_reps = 6,
            set_rir = Some 1, set_unit = ''lbs'' \<rparr>,
          \<lparr> set_id = 3, set_session_id = 2, set_index = 1, set_weight = Fin 100, set_reps = 8,
            set_rir = Some 2, set_unit = ''lbs'' \<rparr>],
       seq_exercises = 3, seq_sessions = 3, seq_sets = 3 \<rparr>"


text \<open>
  Drafts over the sample store, the exercise Squat selected. In the first the second set
  has 2^63 reps (the reps field accepts any positive integer); in the second both sets
  are ordinary; the third has three sets, the second of them selected in the table.
  \<open>squat_listed\<close> is the selected row of the exercise list, \<open>sample_log4\<close> the sample
  store with the session of the draft, \<open>set4\<close> and \<open>set5\<close> the rows of its sets.
\<close>

definition overflow_draft :: app where
  "overflow_draft =
     \<lparr> store = sample_log,
       app_exercises = get_exercises sample_log,
       ex_selection = [1],
       set_buffer =
         [\<lparr> idx = 1, weight = PyFloat (Fin 100), reps = PyInt 8, rir = PyNone, unit = ''lbs'' \<rparr>,
          \<lparr> idx = 2, weight = PyFloat (Fin 100), reps = PyInt (2 ^ 63), rir = PyNone, unit = ''lbs'' \<rparr>],
       sets_tree =
         [(''I001'', (1, PyFloat (Fin 100), PyInt 8, PyStr [], ''lbs'')),
          (''I002'', (2, PyFloat (Fin 100), PyInt (2 ^ 63), PyStr [], ''lbs''))],
       sets_selection = [],
       date_text = ''2024-01-15'',
       note_text = [] \<rparr>"

definition plain_draft :: app where
  "plain_draft =
     overflow_draft\<lparr> set_buffer :=
         [\<lparr> idx = 1, weight = PyFloat (Fin 100), reps = PyInt 8, rir = PyNone, unit = ''lbs'' \<rparr>,
          \<lparr> idx = 2, weight = PyFloat (Fin 100), reps = PyInt 7, rir = PyInt 1, unit = ''lbs'' \<rparr>],
       sets_tree :=
         [(''I001'', (1, PyFloat (Fin 100), PyInt 8, PyStr [], ''lbs'')),
          (''I002'', (2, PyFloat (Fin 100), PyInt 7, PyInt 1, ''lbs''))] \<rparr>"

definition three_sets_draft :: app where
  "three_sets_draft =
     plain_draft\<lparr> set_buffer :=
         [\<lparr> idx = 1, weight = PyFloat (Fin 100), reps = PyInt 8, rir = PyNone, unit = ''lbs'' \<rparr>,
          \<lparr> idx = 2, weight = PyFloat (Fin 100), reps = PyInt 7, rir = PyInt 1, unit = ''lbs'' \<rparr>,
          \<lparr> idx = 3, weight = PyFloat (Fin 95), reps = PyInt 6, rir = PyInt 0, unit = ''lbs'' \<rparr>],
       sets_tree :=
         [(''I001'', (1, PyFloat (Fin 100), PyInt 8, PyStr [], ''lbs'')),
          (''I002'', (2, PyFloat (Fin 100), PyInt 7, PyInt 1, ''lbs'')),
          (''I003'', (3, PyFloat (Fin 95), PyInt 6, PyInt 0, ''lbs''))],
       sets_selection := [''I002''] \<rparr>"





section \<open>Properties of the validators\<close>

lemma strip_decomp:
  "\<exists>l r. s = l @ strip s @ r \<and> (\<forall>c\<in>set l. py_isspace c) \<and> (\<forall>c\<in>set r. py_isspace c)"
proof -
  let ?l = "takeWhile py_isspace s"
  let ?m = "dropWhile py_isspace s"
  let ?r = "rev (takeWhile py_isspace (rev ?m))"
  have "?m = strip s @ ?r"
    unfolding strip_def
    by (metis rev_append rev_rev_ident takeWhile_dropWhile_id)
  then have "s = ?l @ strip s @ ?r" by (metis takeWhile_dropWhile_id)
  moreover have "\<forall>c\<in>set ?l. py_isspace c" by (auto dest: set_takeWhileD)
  moreover have "\<forall>c\<in>set ?r. py_isspace c" by (auto dest: set_takeWhileD)
  ultimately show ?thesis by blast
qed

lemma strip_last: "strip s \<noteq> [] \<Longrightarrow> \<not> py_isspace (last (strip s))"
  unfolding strip_def by (simp add: last_rev hd_dropWhile)

lemma dropWhile_rev_hd:
  assumes "xs \<noteq> []" "\<not> P (hd xs)"
  shows "rev (dropWhile P (rev xs)) \<noteq> [] \<and> hd (rev (dropWhile P (rev xs))) = hd xs"
proof -
  obtain x ys where xs: "xs = x # ys" using assms(1) by (cases xs) auto
  then have nx: "\<not> P x" using assms(2) by simp
  have "\<exists>zs. dropWhile P (rev ys @ [x]) = zs @ [x]"
    using nx by (simp add: dropWhile_append)
  then obtain zs where "dropWhile P (rev ys @ [x]) = zs @ [x]" ..
  then show ?thesis using xs by simp
qed

lemma strip_hd: "strip s \<noteq> [] \<Longrightarrow> \<not> py_isspace (hd (strip s))"
proof -
  assume ne: "strip s \<noteq> []"
  let ?m = "dropWhile py_isspace s"
  have "?m = [] \<Longrightarrow> strip s = []" by (auto simp: strip_def dest: set_dropWhileD)
  then have m: "?m \<noteq> []" using ne by blast
  then have "\<not> py_isspace (hd ?m)" by (simp add: hd_dropWhile)
  with m show ?thesis unfolding strip_def using dropWhile_rev_hd[of ?m py_isspace] by simp
qed

lemma strip_blank: "strip s = [] \<longleftrightarrow> (\<forall>c\<in>set s. py_isspace c)"
proof -
  let ?m = "dropWhile py_isspace s"
  have "strip s = [] \<longleftrightarrow> (\<forall>c\<in>set ?m. py_isspace c)"
    by (simp add: strip_def dropWhile_eq_Nil_conv)
  also have "\<dots> \<longleftrightarrow> ?m = []"
  proof
    assume a: "\<forall>c\<in>set ?m. py_isspace c"
    show "?m = []"
    proof (rule ccontr)
      assume "?m \<noteq> []"
      then have "\<not> py_isspace (hd ?m)" "hd ?m \<in> set ?m" by (simp_all add: hd_dropWhile)
      with a show False by blast
    qed
  qed (auto dest: set_dropWhileD)
  also have "\<dots> \<longleftrightarrow> (\<forall>c\<in>set s. py_isspace c)"
    by (simp add: dropWhile_eq_Nil_conv)
  finally show ?thesis .
qed

lemma py_isspace_space: "py_isspace (CHR '' '')"
  by (simp add: py_isspace_def)

lemma strip_pad: "\<not> py_isspace c \<Longrightarrow> strip (c # replicate n (CHR '' '')) = [c]"
proof -
  assume c: "\<not> py_isspace c"
  have "dropWhile py_isspace (replicate n (CHR '' '') @ [c]) = dropWhile py_isspace [c]"
    by (rule dropWhile_append2) (simp add: py_isspace_space)
  then show ?thesis using c by (simp add: strip_def)
qed

text \<open>
  C4, as the code has it. A name all of whose characters are whitespace (the empty name
  among them) is refused as empty; any other name is refused as too long exactly when
  its stripped form has more than 150 characters, and otherwise the stripped form is
  returned. The stripped form is the name without a leading and a trailing run of
  whitespace, and it neither starts nor ends with whitespace.
\<close>

theorem validate_exercise_name_trimmed:
  "((\<forall>c\<in>set name. py_isspace c) \<longrightarrow>
      validate_exercise_name name = Inl (ValueError ''Exercise name cannot be empty.'')) \<and>
   (\<not> (\<forall>c\<in>set name. py_isspace c) \<and> length (strip name) > 150 \<longrightarrow>
      validate_exercise_name name = Inl (ValueError ''Exercise name too long.'')) \<and>
   (\<not> (\<forall>c\<in>set name. py_isspace c) \<and> length (strip name) \<le> 150 \<longrightarrow>
      validate_exercise_name name = Inr (strip name)) \<and>
   (\<exists>l r. name = l @ strip name @ r \<and> (\<forall>c\<in>set l. py_isspace c) \<and> (\<forall>c\<in>set r. py_isspace c)) \<and>
   (strip name \<noteq> [] \<longrightarrow> \<not> py_isspace (hd (strip name)) \<and> \<not> py_isspace (last (strip name)))"
  using strip_decomp[of name] strip_hd[of name] strip_last[of name] strip_blank[of name]
  by (simp add: validate_exercise_name_def)

text \<open>
  C4 as stated fails: this name has 151 characters, more than 150, and is accepted,
  because the length is taken after stripping.
\<close>

theorem validate_exercise_name_long_counterexample:
  "length (CHR ''a'' # replicate 150 (CHR '' '')) > 150 \<and>
   validate_exercise_name (CHR ''a'' # replicate 150 (CHR '' '')) = Inr ''a''"
  by (simp add: validate_exercise_name_def strip_pad py_isspace_def)

theorem validate_exercise_name_trimmed_witness:
  "validate_exercise_name ''   '' = Inl (ValueError ''Exercise name cannot be empty.'') \<and>
   validate_exercise_name (replicate 151 (CHR ''a'')) = Inl (ValueError ''Exercise name too long.'') \<and>
   validate_exercise_name '' Bench Press '' = Inr ''Bench Press''"
proof -
  have s1: "strip ''   '' = []" by (simp add: strip_def py_isspace_def)
  have s2: "strip (replicate 151 (CHR ''a'')) = replicate 151 (CHR ''a'')"
    by (simp add: strip_def py_isspace_def dropWhile_eq_Nil_conv)
  have s3: "strip '' Bench Press '' = ''Bench Press''" by (simp add: strip_def py_isspace_def)
  have b2: "\<not> (\<forall>c\<in>set (replicate 151 (CHR ''a'')). py_isspace c)" by (simp add: py_isspace_def)
  have b3: "\<not> (\<forall>c\<in>set '' Bench Press ''. py_isspace c)" by (simp add: py_isspace_def)
  show ?thesis
    using validate_exercise_name_trimmed[of "''   ''"]
      validate_exercise_name_trimmed[of "replicate 151 (CHR ''a'')"]
      validate_exercise_name_trimmed[of "'' Bench Press ''"] s1 s2 s3 b2 b3
    by (simp add: py_isspace_space)
qed


text \<open>
  C3. If either text does not parse (the weight as a float, the reps as an int) the
  result is the error \<open>Weight must be a number and reps an integer.\<close>; if both parse and
  the weight is below 0 or the reps are at most 0, the error \<open>Invalid weight/reps.\<close>;
  if both parse with weight at least 0 and reps at least 1, the parsed pair itself. The
  function is pure: its result is all it does.
\<close>

theorem validate_weight_reps_spec:
  "((float_of_str py w = None \<or> int_of_str py r = None) \<longrightarrow>
      validate_weight_reps py w r = Inl (ValueError ''Weight must be a number and reps an integer.'')) \<and>
   (\<forall>x n. float_of_str py w = Some x \<and> int_of_str py r = Some n \<and> (float_lt0 x \<or> n \<le> 0) \<longrightarrow>
      validate_weight_reps py w r = Inl (ValueError ''Invalid weight/reps.'')) \<and>
   (\<forall>x n. float_of_str py w = Some x \<and> int_of_str py r = Some n \<and> float_ge0 x \<and> 1 \<le> n \<longrightarrow>
      validate_weight_reps py w r = Inr (x, n))"
proof (intro conjI allI impI)
  assume "float_of_str py w = None \<or> int_of_str py r = None"
  then show "validate_weight_reps py w r = Inl (ValueError ''Weight must be a number and reps an integer.'')"
    by (auto simp: validate_weight_reps_def split: option.splits)
next
  fix x n
  assume "float_of_str py w = Some x \<and> int_of_str py r = Some n \<and> (float_lt0 x \<or> n \<le> 0)"
  then show "validate_weight_reps py w r = Inl (ValueError ''Invalid weight/reps.'')"
    by (auto simp: validate_weight_reps_def)
next
  fix x n
  assume a: "float_of_str py w = Some x \<and> int_of_str py r = Some n \<and> float_ge0 x \<and> 1 \<le> n"
  then have "\<not> float_lt0 x" by (cases x) auto
  with a show "validate_weight_reps py w r = Inr (x, n)"
    by (auto simp: validate_weight_reps_def)
qed

lemma decimal_100: "decimal_literal ''100'' = Some 100"
  by (simp add: decimal_literal_def strip_def py_isspace_def digit_val_def)

lemma decimal_8: "decimal_literal ''8'' = Some 8"
  by (simp add: decimal_literal_def strip_def py_isspace_def digit_val_def)

lemma decimal_0: "decimal_literal ''0'' = Some 0"
  by (simp add: decimal_literal_def strip_def py_isspace_def digit_val_def)

lemma decimal_abc: "decimal_literal ''abc'' = None"
  by (simp add: decimal_literal_def strip_def py_isspace_def digit_val_def)

theorem validate_weight_reps_spec_witness:
  "validate_weight_reps sample_builtins ''100'' ''8'' = Inr (Fin 100, 8) \<and>
   validate_weight_reps sample_builtins ''100'' ''0'' = Inl (ValueError ''Invalid weight/reps.'') \<and>
   validate_weight_reps sample_builtins ''abc'' ''8'' =
     Inl (ValueError ''Weight must be a number and reps an integer.'')"
proof -
  have f100: "float_of_str sample_builtins ''100'' = Some (Fin 100)"
    by (simp add: sample_builtins_def decimal_100 exact_float_def)
  have i8: "int_of_str sample_builtins ''8'' = Some 8"
    by (simp add: sample_builtins_def decimal_8)
  have i0: "int_of_str sample_builtins ''0'' = Some 0"
    by (simp add: sample_builtins_def decimal_0)
  have fabc: "float_of_str sample_builtins ''abc'' = None"
    by (simp add: sample_builtins_def decimal_abc)
  show ?thesis
    using validate_weight_reps_spec[of sample_builtins "''100''" "''8''"]
      validate_weight_reps_spec[of sample_builtins "''100''" "''0''"]
      validate_weight_reps_spec[of sample_builtins "''abc''" "''8''"]
      f100 i8 i0 fabc
    by simp
qed

section \<open>Properties of the store\<close>

lemma strip_plain:
  "s \<noteq> [] \<Longrightarrow> \<not> py_isspace (hd s) \<Longrightarrow> \<not> py_isspace (last s) \<Longrightarrow> strip s = s"
proof -
  assume a: "s \<noteq> []" "\<not> py_isspace (hd s)" "\<not> py_isspace (last s)"
  then have 1: "dropWhile py_isspace s = s" by (cases s) auto
  have "rev s \<noteq> []" "\<not> py_isspace (hd (rev s))" using a by (simp_all add: hd_rev)
  then have "dropWhile py_isspace (rev s) = rev s" by (cases "rev s") auto
  with 1 show ?thesis by (simp add: strip_def)
qed

lemma preloaded_db:
  "ensure_preloaded empty_db =
     \<lparr> exercises =
         [\<lparr> ex_id = 1, ex_name = ''Squat'', ex_body_part = ''Back'', ex_equipment = ''Barbell'',
            ex_notes = ''Add Elevation'', ex_subgroup = ''Lower Back'' \<rparr>,
          \<lparr> ex_id = 2, ex_name = ''Pull Ups'', ex_body_part = ''Back'', ex_equipment = ''Bodyweight'',
            ex_notes = ''Slow and Controlled'', ex_subgroup = ''Vertical Mower'' \<rparr>,
          \<lparr> ex_id = 3, ex_name = ''Hammer Curls'', ex_body_part = ''Biceps'', ex_equipment = ''Dumbbells'',
            ex_notes = ''Add Back Pulling'', ex_subgroup = ''Brachioradialis'' \<rparr>],
       sessions = [], sets = [], seq_exercises = 3, seq_sessions = 0, seq_sets = 0 \<rparr>"
  by (simp add: ensure_preloaded_def empty_db_def PRELOADED_EXERCISES_def insert_exercise_def
      next_rowid_def)

lemma strip_Squat: "strip ''Squat'' = ''Squat''"
  by (rule strip_plain) (simp_all add: py_isspace_def)

text \<open>
  C2 at a concrete store. After the first start the store holds Squat (id 1), Pull Ups
  (id 2) and Hammer Curls (id 3). Renaming exercise 2 to Squat raises the
  \<open>IntegrityError\<close> of the \<open>UPDATE\<close> as it is, while adding a second Squat raises the
  \<open>ValueError\<close> that \<open>add_exercise\<close> makes of it.
\<close>

theorem update_exercise_duplicate_error:
  "update_exercise (ensure_preloaded empty_db) 2 ''Squat'' ''Back'' ''Bodyweight'' [] [] =
     Inl (IntegrityError ''UNIQUE constraint failed: exercises.name'') \<and>
   add_exercise (ensure_preloaded empty_db) ''Squat'' ''Back'' ''Bodyweight'' [] [] =
     Inl (ValueError ''Exercise already exists.'')"
  by (simp add: preloaded_db update_exercise_def add_exercise_def insert_exercise_def strip_Squat)

lemma add_exercise_duplicate:
  "strip name \<in> set (map ex_name (exercises d)) \<Longrightarrow>
   add_exercise d name body_part equipment notes subgroup = Inl (ValueError ''Exercise already exists.'')"
  by (simp add: add_exercise_def insert_exercise_def)

lemma add_exercise_new:
  "strip name \<notin> set (map ex_name (exercises d)) \<Longrightarrow>
   \<exists>d' i. add_exercise d name body_part equipment notes subgroup = Inr (d', i) \<and>
      length (exercises d') = Suc (length (exercises d))"
  by (simp add: add_exercise_def insert_exercise_def Let_def)

section \<open>Properties of the queries and of add_set\<close>

lemma set_exercise_sets:
  "(s, t) \<in> set (exercise_sets d i) \<longleftrightarrow>
     t \<in> set (sets d) \<and> s \<in> set (sessions d) \<and> set_session_id t = sess_id s \<and> sess_exercise_id s = i"
  by (auto simp: exercise_sets_def)

lemma exercise_sets_empty:
  "exercise_sets d i = [] \<longleftrightarrow>
     \<not> (\<exists>s\<in>set (sessions d). sess_exercise_id s = i \<and> (\<exists>t\<in>set (sets d). set_session_id t = sess_id s))"
proof -
  have "exercise_sets d i = [] \<longleftrightarrow> set (exercise_sets d i) = {}" by simp
  also have "\<dots> \<longleftrightarrow> (\<forall>s t. (s, t) \<notin> set (exercise_sets d i))"
    by (metis all_not_in_conv surj_pair)
  also have "\<dots> \<longleftrightarrow> \<not> (\<exists>s\<in>set (sessions d). sess_exercise_id s = i \<and> (\<exists>t\<in>set (sets d). set_session_id t = sess_id s))"
    unfolding set_exercise_sets by blast
  finally show ?thesis .
qed

lemma sorted_key_last:
  "sorted (map f ys) \<Longrightarrow> y \<in> set ys \<Longrightarrow> f y \<le> f (last ys)"
  by (induction ys) (auto split: if_splits)

lemma rev_sort_key_Cons:
  assumes "rev (sort_key f xs) = x # rest"
  shows "x \<in> set xs \<and> (\<forall>y\<in>set xs. f y \<le> f x)"
proof -
  let ?ys = "sort_key f xs"
  have ne: "?ys \<noteq> []" using assms by auto
  have x: "x = last ?ys" using assms ne by (metis last_rev list.sel(1) rev_rev_ident hd_rev)
  have "last ?ys \<in> set ?ys" using ne by (rule last_in_set)
  then have "x \<in> set ?ys" using x by simp
  moreover have "\<forall>y\<in>set ?ys. f y \<le> f x"
    using sorted_key_last[of f ?ys] x by simp
  ultimately show ?thesis by simp
qed

lemma get_last_set_none:
  "exercise_sets d i = [] \<Longrightarrow> get_last_set_for_exercise d i = PyTuple [PyNone, PyNone, PyNone, PyNone]"
  by (simp add: get_last_set_for_exercise_def)

lemma get_last_set_some:
  assumes "exercise_sets d i \<noteq> []"
  shows "\<exists>s t. (s, t) \<in> set (exercise_sets d i) \<and> get_last_set_for_exercise d i = set_tuple t \<and>
           (\<forall>p\<in>set (exercise_sets d i). (sess_date (fst p), set_index (snd p)) \<le> (sess_date s, set_index t))"
proof -
  let ?k = "\<lambda>(s, t). (sess_date s, set_index t)"
  let ?r = "rev (sort_key ?k (rev (exercise_sets d i)))"
  have "?r \<noteq> []" using assms by (metis length_sort length_0_conv rev_is_Nil_conv)
  then obtain s t rest where r: "?r = (s, t) # rest" by (cases ?r) auto
  from rev_sort_key_Cons[OF r]
  have "(s, t) \<in> set (exercise_sets d i)" "\<forall>y\<in>set (exercise_sets d i). ?k y \<le> ?k (s, t)" by auto
  moreover have "get_last_set_for_exercise d i = set_tuple t"
    using r by (simp add: get_last_set_for_exercise_def)
  ultimately show ?thesis by (auto simp: case_prod_beta)
qed

text \<open>
  C6, as the code has it. When some session of the exercise has a set, the result is the
  tuple (weight, reps, rir, unit) of a set of the exercise that no other set of the
  exercise beats: every other one belongs to a session with an earlier date, or to a
  session with the same date and has a set index that is not higher. Dates are compared
  as the stored texts. When the exercise has no set at all, the result is the tuple of
  four \<open>None\<close>.
\<close>

theorem get_last_set_for_exercise_latest:
  "((\<exists>s\<in>set (sessions d). sess_exercise_id s = i \<and> (\<exists>t\<in>set (sets d). set_session_id t = sess_id s)) \<longrightarrow>
      (\<exists>s\<in>set (sessions d). \<exists>t\<in>set (sets d).
          sess_exercise_id s = i \<and> set_session_id t = sess_id s \<and>
          get_last_set_for_exercise d i =
            PyTuple [PyFloat (set_weight t), PyInt (set_reps t), rir_val (set_rir t), PyStr (set_unit t)] \<and>
          (\<forall>s'\<in>set (sessions d). \<forall>t'\<in>set (sets d).
              sess_exercise_id s' = i \<and> set_session_id t' = sess_id s' \<longrightarrow>
              sess_date s' < sess_date s \<or> (sess_date s' = sess_date s \<and> set_index t' \<le> set_index t)))) \<and>
   (\<not> (\<exists>s\<in>set (sessions d). sess_exercise_id s = i \<and> (\<exists>t\<in>set (sets d). set_session_id t = sess_id s)) \<longrightarrow>
      get_last_set_for_exercise d i = PyTuple [PyNone, PyNone, PyNone, PyNone])"
proof (intro conjI impI)
  assume "\<exists>s\<in>set (sessions d). sess_exercise_id s = i \<and> (\<exists>t\<in>set (sets d). set_session_id t = sess_id s)"
  then have "exercise_sets d i \<noteq> []" by (simp add: exercise_sets_empty)
  from get_last_set_some[OF this] obtain s t where
    st: "(s, t) \<in> set (exercise_sets d i)" and
    res: "get_last_set_for_exercise d i = set_tuple t" and
    mx: "\<forall>p\<in>set (exercise_sets d i). (sess_date (fst p), set_index (snd p)) \<le> (sess_date s, set_index t)"
    by blast
  have "\<forall>s'\<in>set (sessions d). \<forall>t'\<in>set (sets d).
          sess_exercise_id s' = i \<and> set_session_id t' = sess_id s' \<longrightarrow>
          sess_date s' < sess_date s \<or> (sess_date s' = sess_date s \<and> set_index t' \<le> set_index t)"
  proof (intro ballI impI)
    fix s' t' assume "s' \<in> set (sessions d)" "t' \<in> set (sets d)"
      "sess_exercise_id s' = i \<and> set_session_id t' = sess_id s'"
    then have "(s', t') \<in> set (exercise_sets d i)" by (simp add: set_exercise_sets)
    with mx have "(sess_date s', set_index t') \<le> (sess_date s, set_index t)" by force
    then show "sess_date s' < sess_date s \<or> (sess_date s' = sess_date s \<and> set_index t' \<le> set_index t)"
      by (auto simp: less_eq_prod_def)
  qed
  with st res show "\<exists>s\<in>set (sessions d). \<exists>t\<in>set (sets d).
          sess_exercise_id s = i \<and> set_session_id t = sess_id s \<and>
          get_last_set_for_exercise d i =
            PyTuple [PyFloat (set_weight t), PyInt (set_reps t), rir_val (set_rir t), PyStr (set_unit t)] \<and>
          (\<forall>s'\<in>set (sessions d). \<forall>t'\<in>set (sets d).
              sess_exercise_id s' = i \<and> set_session_id t' = sess_id s' \<longrightarrow>
              sess_date s' < sess_date s \<or> (sess_date s' = sess_date s \<and> set_index t' \<le> set_index t))"
    unfolding set_exercise_sets set_tuple_def by blast
next
  assume "\<not> (\<exists>s\<in>set (sessions d). sess_exercise_id s = i \<and> (\<exists>t\<in>set (sets d). set_session_id t = sess_id s))"
  then have "exercise_sets d i = []" by (simp add: exercise_sets_empty)
  then show "get_last_set_for_exercise d i = PyTuple [PyNone, PyNone, PyNone, PyNone]"
    by (rule get_last_set_none)
qed

lemma sample_log_last: "get_last_set_for_exercise sample_log 1 = PyTuple [PyFloat (Fin 105), PyInt 6, PyInt 1, PyStr ''lbs'']"
  by (simp add: get_last_set_for_exercise_def sample_log_def exercise_sets_def set_tuple_def rir_val_def less_eq_prod_def)


theorem get_last_set_for_exercise_latest_witness:
  "(\<exists>s\<in>set (sessions sample_log). sess_exercise_id s = 1 \<and>
      (\<exists>t\<in>set (sets sample_log). set_session_id t = sess_id s)) \<and>
   get_last_set_for_exercise sample_log 1 = PyTuple [PyFloat (Fin 105), PyInt 6, PyInt 1, PyStr ''lbs''] \<and>
   \<not> (\<exists>s\<in>set (sessions sample_log). sess_exercise_id s = 2 \<and>
      (\<exists>t\<in>set (sets sample_log). set_session_id t = sess_id s)) \<and>
   get_last_set_for_exercise sample_log 2 = PyTuple [PyNone, PyNone, PyNone, PyNone]"
  using get_last_set_for_exercise_latest[of sample_log 1]
    get_last_set_for_exercise_latest[of sample_log 2]
  by (auto simp: sample_log_def rir_val_def)

text \<open>
  C6 as stated fails in its last part: in the store of the first start no set exists,
  and the result for exercise 1 is not \<open>None\<close>.
\<close>

theorem get_last_set_for_exercise_none_counterexample:
  "sets (ensure_preloaded empty_db) = [] \<and>
   get_last_set_for_exercise (ensure_preloaded empty_db) 1 \<noteq> PyNone"
  by (simp add: ensure_preloaded_def empty_db_def PRELOADED_EXERCISES_def insert_exercise_def
      next_rowid_def get_last_set_for_exercise_def exercise_sets_def)

text \<open>
  C9. When no session of the exercise has a set (there is no session, or the sessions
  have no sets), the result is the tuple \<open>(None, None, None, None)\<close>, which is not the
  single value \<open>None\<close>.
\<close>

theorem get_last_set_for_exercise_no_data:
  "(\<forall>s\<in>set (sessions d). sess_exercise_id s = i \<longrightarrow> (\<forall>t\<in>set (sets d). set_session_id t \<noteq> sess_id s)) \<Longrightarrow>
   get_last_set_for_exercise d i = PyTuple [PyNone, PyNone, PyNone, PyNone] \<and>
   get_last_set_for_exercise d i \<noteq> PyNone"
proof -
  assume "\<forall>s\<in>set (sessions d). sess_exercise_id s = i \<longrightarrow> (\<forall>t\<in>set (sets d). set_session_id t \<noteq> sess_id s)"
  then have "exercise_sets d i = []" unfolding exercise_sets_empty by blast
  then show ?thesis by (simp add: get_last_set_none)
qed

theorem get_last_set_for_exercise_no_data_witness:
  "\<not> (\<exists>s\<in>set (sessions sample_log). sess_exercise_id s = 2 \<and>
      (\<exists>t\<in>set (sets sample_log). set_session_id t = sess_id s)) \<and>
   get_last_set_for_exercise sample_log 2 = PyTuple [PyNone, PyNone, PyNone, PyNone] \<and>
   get_last_set_for_exercise sample_log 3 = PyTuple [PyNone, PyNone, PyNone, PyNone]"
proof -
  have h2: "\<forall>s\<in>set (sessions sample_log). sess_exercise_id s = 2 \<longrightarrow>
      (\<forall>t\<in>set (sets sample_log). set_session_id t \<noteq> sess_id s)"
    by (simp add: sample_log_def)
  have h3: "\<forall>s\<in>set (sessions sample_log). sess_exercise_id s = 3 \<longrightarrow>
      (\<forall>t\<in>set (sets sample_log). set_session_id t \<noteq> sess_id s)"
    by (simp add: sample_log_def)
  show ?thesis
    using h2 get_last_set_for_exercise_no_data[OF h2] get_last_set_for_exercise_no_data[OF h3]
    by simp
qed

lemma str_strip_empty_iff:
  "str_strip_empty v \<longleftrightarrow> (\<exists>s. v = PyStr s \<and> (\<forall>c\<in>set s. py_isspace c))"
  by (cases v) (simp_all add: strip_blank)

lemma coerce_rir_blank:
  "rv = PyNone \<or> (\<exists>s. rv = PyStr s \<and> (\<forall>c\<in>set s. py_isspace c)) \<Longrightarrow> coerce_rir py rv = Inr None"
  by (auto simp: coerce_rir_def str_strip_empty_iff)

lemma coerce_rir_other:
  "\<not> (rv = PyNone \<or> (\<exists>s. rv = PyStr s \<and> (\<forall>c\<in>set s. py_isspace c))) \<Longrightarrow>
   coerce_rir py rv = (case py_int py rv of Inl e \<Rightarrow> Inl e | Inr n \<Rightarrow> Inr (Some n))"
  by (auto simp: coerce_rir_def str_strip_empty_iff)

lemma add_set_stored:
  "add_set py d sid i w r rv u = Inr (d', k) \<Longrightarrow>
   \<exists>x n ri. py_float py w = Inr x \<and> py_int py r = Inr n \<and> coerce_rir py rv = Inr ri \<and>
     sid \<in> set (map sess_id (sessions d)) \<and>
     d' = d\<lparr> sets := sets d @ [\<lparr> set_id = k, set_session_id = sid, set_index = i, set_weight = x,
                                   set_reps = n, set_rir = ri, set_unit = u \<rparr>], seq_sets := k \<rparr>"
  by (auto simp: add_set_def Let_def split: sum.splits if_splits)

lemma add_set_success:
  assumes "py_float py w = Inr x" "py_int py r = Inr n" "coerce_rir py rv = Inr ri"
    "x \<noteq> NaN" "fits_int64 sid" "fits_int64 i" "fits_int64 n"
    "case ri of None \<Rightarrow> True | Some m \<Rightarrow> fits_int64 m"
    "sid \<in> set (map sess_id (sessions d))"
  shows "add_set py d sid i w r rv u =
     Inr (d\<lparr> sets := sets d @
              [\<lparr> set_id = next_rowid (map set_id (sets d)) (seq_sets d), set_session_id = sid,
                 set_index = i, set_weight = x, set_reps = n, set_rir = ri, set_unit = u \<rparr>],
            seq_sets := next_rowid (map set_id (sets d)) (seq_sets d) \<rparr>,
          next_rowid (map set_id (sets d)) (seq_sets d))"
  using assms by (simp add: add_set_def Let_def)

text \<open>
  C10. For an \<open>rir\<close> argument that is \<open>None\<close> or a text of whitespace only (the empty
  text among them), the coercion gives \<open>NULL\<close> without failing, \<open>add_set\<close> does exactly
  what it does for \<open>None\<close>, and whenever the other arguments are acceptable (weight and
  reps convertible, the weight not NaN, the integers within 64 bits, the session in the
  store) the row is stored, with no rir. For any other argument the coercion is
  \<open>int()\<close>: when \<open>int()\<close> gives an integer within 64 bits and the other arguments are
  acceptable, the row is stored with that integer as its rir; when \<open>int()\<close> fails (the
  weight and the reps being convertible) \<open>add_set\<close> fails with its error. Whatever row
  \<open>add_set\<close> stores has these values; the column holds an integer or \<open>NULL\<close>, never a
  text.
\<close>

theorem add_set_rir_coercion:
  "((rv = PyNone \<or> (\<exists>s. rv = PyStr s \<and> (\<forall>c\<in>set s. py_isspace c))) \<longrightarrow>
      coerce_rir py rv = Inr None \<and>
      add_set py d sid i w r rv u = add_set py d sid i w r PyNone u \<and>
      (\<forall>d' k. add_set py d sid i w r rv u = Inr (d', k) \<longrightarrow>
         (\<exists>row. sets d' = sets d @ [row] \<and> set_rir row = None)) \<and>
      (\<forall>x n. py_float py w = Inr x \<and> py_int py r = Inr n \<and> x \<noteq> NaN \<and>
          fits_int64 sid \<and> fits_int64 i \<and> fits_int64 n \<and>
          sid \<in> set (map sess_id (sessions d)) \<longrightarrow>
         add_set py d sid i w r rv u =
           Inr (d\<lparr> sets := sets d @
                    [\<lparr> set_id = next_rowid (map set_id (sets d)) (seq_sets d), set_session_id = sid,
                       set_index = i, set_weight = x, set_reps = n, set_rir = None, set_unit = u \<rparr>],
                  seq_sets := next_rowid (map set_id (sets d)) (seq_sets d) \<rparr>,
                next_rowid (map set_id (sets d)) (seq_sets d)))) \<and>
   (\<not> (rv = PyNone \<or> (\<exists>s. rv = PyStr s \<and> (\<forall>c\<in>set s. py_isspace c))) \<longrightarrow>
      coerce_rir py rv = (case py_int py rv of Inl e \<Rightarrow> Inl e | Inr n \<Rightarrow> Inr (Some n)) \<and>
      (\<forall>d' k. add_set py d sid i w r rv u = Inr (d', k) \<longrightarrow>
         (\<exists>row n. py_int py rv = Inr n \<and> sets d' = sets d @ [row] \<and> set_rir row = Some n)) \<and>
      (\<forall>e x n. py_float py w = Inr x \<and> py_int py r = Inr n \<and> py_int py rv = Inl e \<longrightarrow>
         add_set py d sid i w r rv u = Inl e) \<and>
      (\<forall>x n m. py_float py w = Inr x \<and> py_int py r = Inr n \<and> py_int py rv = Inr m \<and> x \<noteq> NaN \<and>
          fits_int64 sid \<and> fits_int64 i \<and> fits_int64 n \<and> fits_int64 m \<and>
          sid \<in> set (map sess_id (sessions d)) \<longrightarrow>
         add_set py d sid i w r rv u =
           Inr (d\<lparr> sets := sets d @
                    [\<lparr> set_id = next_rowid (map set_id (sets d)) (seq_sets d), set_session_id = sid,
                       set_index = i, set_weight = x, set_reps = n, set_rir = Some m, set_unit = u \<rparr>],
                  seq_sets := next_rowid (map set_id (sets d)) (seq_sets d) \<rparr>,
                next_rowid (map set_id (sets d)) (seq_sets d))))"
proof (intro conjI impI allI)
  assume b: "rv = PyNone \<or> (\<exists>s. rv = PyStr s \<and> (\<forall>c\<in>set s. py_isspace c))"
  show c: "coerce_rir py rv = Inr None" using b by (rule coerce_rir_blank)
  have c0: "coerce_rir py PyNone = Inr None" by (simp add: coerce_rir_def)
  show "add_set py d sid i w r rv u = add_set py d sid i w r PyNone u"
    unfolding add_set_def c c0 by (rule refl)
  { fix d' k assume "add_set py d sid i w r rv u = Inr (d', k)"
    from add_set_stored[OF this] c
    show "\<exists>row. sets d' = sets d @ [row] \<and> set_rir row = None" by auto }
  { fix x n
    assume "py_float py w = Inr x \<and> py_int py r = Inr n \<and> x \<noteq> NaN \<and>
          fits_int64 sid \<and> fits_int64 i \<and> fits_int64 n \<and>
          sid \<in> set (map sess_id (sessions d))"
    then show "add_set py d sid i w r rv u =
           Inr (d\<lparr> sets := sets d @
                    [\<lparr> set_id = next_rowid (map set_id (sets d)) (seq_sets d), set_session_id = sid,
                       set_index = i, set_weight = x, set_reps = n, set_rir = None, set_unit = u \<rparr>],
                  seq_sets := next_rowid (map set_id (sets d)) (seq_sets d) \<rparr>,
                next_rowid (map set_id (sets d)) (seq_sets d))"
      using c by (intro add_set_success) simp_all }
next
  assume nb: "\<not> (rv = PyNone \<or> (\<exists>s. rv = PyStr s \<and> (\<forall>c\<in>set s. py_isspace c)))"
  show c: "coerce_rir py rv = (case py_int py rv of Inl e \<Rightarrow> Inl e | Inr n \<Rightarrow> Inr (Some n))"
    using nb by (rule coerce_rir_other)
  { fix d' k assume "add_set py d sid i w r rv u = Inr (d', k)"
    from add_set_stored[OF this] c
    show "\<exists>row n. py_int py rv = Inr n \<and> sets d' = sets d @ [row] \<and> set_rir row = Some n"
      by (auto split: sum.splits) }
  { fix e x n assume "py_float py w = Inr x \<and> py_int py r = Inr n \<and> py_int py rv = Inl e"
    then show "add_set py d sid i w r rv u = Inl e"
      unfolding add_set_def c by simp }
  { fix x n m
    assume "py_float py w = Inr x \<and> py_int py r = Inr n \<and> py_int py rv = Inr m \<and> x \<noteq> NaN \<and>
          fits_int64 sid \<and> fits_int64 i \<and> fits_int64 n \<and> fits_int64 m \<and>
          sid \<in> set (map sess_id (sessions d))"
    then show "add_set py d sid i w r rv u =
           Inr (d\<lparr> sets := sets d @
                    [\<lparr> set_id = next_rowid (map set_id (sets d)) (seq_sets d), set_session_id = sid,
                       set_index = i, set_weight = x, set_reps = n, set_rir = Some m, set_unit = u \<rparr>],
                  seq_sets := next_rowid (map set_id (sets d)) (seq_sets d) \<rparr>,
                next_rowid (map set_id (sets d)) (seq_sets d))"
      using c by (intro add_set_success) simp_all }
qed

lemma decimal_2: "decimal_literal ''2'' = Some 2"
  by (simp add: decimal_literal_def digit_val_def)

lemma decimal_x: "decimal_literal ''x'' = None"
  by (simp add: decimal_literal_def digit_val_def)

lemma sample_log_next_set: "next_rowid (map set_id (sets sample_log)) (seq_sets sample_log) = 4"
  by (simp add: sample_log_def next_rowid_def)

theorem add_set_rir_coercion_witness:
  "add_set sample_builtins sample_log 3 1 (PyFloat (Fin 100)) (PyInt 8) (PyStr ''  '') ''lbs'' =
     Inr (sample_log\<lparr> sets := sets sample_log @
            [\<lparr> set_id = 4, set_session_id = 3, set_index = 1, set_weight = Fin 100, set_reps = 8,
               set_rir = None, set_unit = ''lbs'' \<rparr>], seq_sets := 4 \<rparr>, 4) \<and>
   add_set sample_builtins sample_log 3 1 (PyFloat (Fin 100)) (PyInt 8) (PyStr ''2'') ''lbs'' =
     Inr (sample_log\<lparr> sets := sets sample_log @
            [\<lparr> set_id = 4, set_session_id = 3, set_index = 1, set_weight = Fin 100, set_reps = 8,
               set_rir = Some 2, set_unit = ''lbs'' \<rparr>], seq_sets := 4 \<rparr>, 4) \<and>
   add_set sample_builtins sample_log 3 1 (PyFloat (Fin 100)) (PyInt 8) (PyInt 3) ''lbs'' =
     Inr (sample_log\<lparr> sets := sets sample_log @
            [\<lparr> set_id = 4, set_session_id = 3, set_index = 1, set_weight = Fin 100, set_reps = 8,
               set_rir = Some 3, set_unit = ''lbs'' \<rparr>], seq_sets := 4 \<rparr>, 4) \<and>
   coerce_rir sample_builtins (PyStr ''  '') = Inr None \<and>
   coerce_rir sample_builtins (PyStr ''2'') = Inr (Some 2) \<and>
   add_set sample_builtins sample_log 3 1 (PyFloat (Fin 100)) (PyInt 8) (PyStr ''x'') ''lbs'' =
     Inl (ValueError ''invalid literal for int() with base 10'')"
proof -
  have b: "PyStr ''  '' = PyNone \<or> (\<exists>s. PyStr ''  '' = PyStr s \<and> (\<forall>c\<in>set s. py_isspace c))"
    by (simp add: py_isspace_def)
  have nb2: "\<not> (PyStr ''2'' = PyNone \<or> (\<exists>s. PyStr ''2'' = PyStr s \<and> (\<forall>c\<in>set s. py_isspace c)))"
    by (simp add: py_isspace_def)
  have nb3: "\<not> (PyInt 3 = PyNone \<or> (\<exists>s. PyInt 3 = PyStr s \<and> (\<forall>c\<in>set s. py_isspace c)))"
    by simp
  have nbx: "\<not> (PyStr ''x'' = PyNone \<or> (\<exists>s. PyStr ''x'' = PyStr s \<and> (\<forall>c\<in>set s. py_isspace c)))"
    by (simp add: py_isspace_def)
  have i2: "py_int sample_builtins (PyStr ''2'') = Inr 2"
    by (simp add: sample_builtins_def decimal_2)
  have ix: "py_int sample_builtins (PyStr ''x'') = Inl (ValueError ''invalid literal for int() with base 10'')"
    by (simp add: sample_builtins_def decimal_x)
  have ok: "py_float sample_builtins (PyFloat (Fin 100)) = Inr (Fin 100) \<and>
      py_int sample_builtins (PyInt 8) = Inr 8 \<and> Fin 100 \<noteq> NaN \<and>
      fits_int64 3 \<and> fits_int64 1 \<and> fits_int64 8 \<and>
      3 \<in> set (map sess_id (sessions sample_log))"
    by (simp add: fits_int64_def sample_log_def)
  have ok2: "py_float sample_builtins (PyFloat (Fin 100)) = Inr (Fin 100) \<and>
      py_int sample_builtins (PyInt 8) = Inr 8 \<and>
      py_int sample_builtins (PyStr ''2'') = Inr 2 \<and> Fin 100 \<noteq> NaN \<and>
      fits_int64 3 \<and> fits_int64 1 \<and> fits_int64 8 \<and> fits_int64 2 \<and>
      3 \<in> set (map sess_id (sessions sample_log))"
    using i2 by (simp add: fits_int64_def sample_log_def)
  have ok3: "py_float sample_builtins (PyFloat (Fin 100)) = Inr (Fin 100) \<and>
      py_int sample_builtins (PyInt 8) = Inr 8 \<and>
      py_int sample_builtins (PyInt 3) = Inr 3 \<and> Fin 100 \<noteq> NaN \<and>
      fits_int64 3 \<and> fits_int64 1 \<and> fits_int64 8 \<and> fits_int64 3 \<and>
      3 \<in> set (map sess_id (sessions sample_log))"
    by (simp add: fits_int64_def sample_log_def)
  have okx: "py_float sample_builtins (PyFloat (Fin 100)) = Inr (Fin 100) \<and>
      py_int sample_builtins (PyInt 8) = Inr 8 \<and>
      py_int sample_builtins (PyStr ''x'') = Inl (ValueError ''invalid literal for int() with base 10'')"
    using ix by simp
  note blank = add_set_rir_coercion[of "PyStr ''  ''" sample_builtins sample_log 3 1
      "PyFloat (Fin 100)" "PyInt 8" "''lbs''", THEN conjunct1, rule_format, OF b]
  note two = add_set_rir_coercion[of "PyStr ''2''" sample_builtins sample_log 3 1
      "PyFloat (Fin 100)" "PyInt 8" "''lbs''", THEN conjunct2, rule_format, OF nb2]
  note three = add_set_rir_coercion[of "PyInt 3" sample_builtins sample_log 3 1
      "PyFloat (Fin 100)" "PyInt 8" "''lbs''", THEN conjunct2, rule_format, OF nb3]
  note ex = add_set_rir_coercion[of "PyStr ''x''" sample_builtins sample_log 3 1
      "PyFloat (Fin 100)" "PyInt 8" "''lbs''", THEN conjunct2, rule_format, OF nbx]
  note 1 = blank[THEN conjunct2, THEN conjunct2, THEN conjunct2, rule_format, OF ok,
      unfolded sample_log_next_set]
  note 2 = two[THEN conjunct2, THEN conjunct2, THEN conjunct2, rule_format, OF ok2,
      unfolded sample_log_next_set]
  note 3 = three[THEN conjunct2, THEN conjunct2, THEN conjunct2, rule_format, OF ok3,
      unfolded sample_log_next_set]
  note 4 = blank[THEN conjunct1]
  have 5: "coerce_rir sample_builtins (PyStr ''2'') = Inr (Some 2)"
    using two[THEN conjunct1] i2 by simp
  note 6 = ex[THEN conjunct2, THEN conjunct2, THEN conjunct1, rule_format, OF okx]
  show ?thesis using 1 2 3 4 5 6 by (intro conjI)
qed

section \<open>Referential integrity and cascading deletion\<close>

lemma exercises_delete_exercise:
  "exercises (delete_exercise d i) = filter (\<lambda>e. ex_id e \<noteq> i) (exercises d)"
proof (cases "i \<in> set (map ex_id (exercises d))")
  case True
  then show ?thesis by (simp add: delete_exercise_def Let_def)
next
  case False
  then have "filter (\<lambda>e. ex_id e \<noteq> i) (exercises d) = exercises d"
    by (auto simp: filter_id_conv)
  with False show ?thesis by (simp add: delete_exercise_def)
qed

lemma sessions_delete_exercise:
  "i \<in> set (map ex_id (exercises d)) \<Longrightarrow>
   sessions (delete_exercise d i) = filter (\<lambda>s. sess_exercise_id s \<noteq> i) (sessions d)"
  by (simp add: delete_exercise_def Let_def)

lemma sets_delete_exercise:
  "i \<in> set (map ex_id (exercises d)) \<Longrightarrow>
   sets (delete_exercise d i) =
     filter (\<lambda>t. \<forall>s\<in>set (sessions d). sess_exercise_id s = i \<longrightarrow> set_session_id t \<noteq> sess_id s) (sets d)"
proof -
  assume "i \<in> set (map ex_id (exercises d))"
  then have "sets (delete_exercise d i) =
     filter (\<lambda>t. set_session_id t \<notin> set (map sess_id (filter (\<lambda>s. sess_exercise_id s = i) (sessions d)))) (sets d)"
    by (simp add: delete_exercise_def Let_def)
  also have "\<dots> = filter (\<lambda>t. \<forall>s\<in>set (sessions d). sess_exercise_id s = i \<longrightarrow> set_session_id t \<noteq> sess_id s) (sets d)"
    by (rule filter_cong) auto
  finally show ?thesis .
qed

lemma ref_integrity_delete_exercise:
  assumes "ref_integrity d" shows "ref_integrity (delete_exercise d i)"
proof (cases "i \<in> set (map ex_id (exercises d))")
  case False
  then show ?thesis using assms by (simp add: delete_exercise_def)
next
  case True
  note ss = sessions_delete_exercise[OF True] sets_delete_exercise[OF True]
  show ?thesis
    unfolding ref_integrity_def
  proof (intro conjI ballI)
    fix s assume "s \<in> set (sessions (delete_exercise d i))"
    then have s: "s \<in> set (sessions d)" "sess_exercise_id s \<noteq> i"
      by (simp_all add: ss)
    then obtain e where "e \<in> set (exercises d)" "ex_id e = sess_exercise_id s"
      using assms by (auto simp: ref_integrity_def)
    then have "e \<in> set (exercises (delete_exercise d i))"
      using s by (simp add: exercises_delete_exercise)
    then show "sess_exercise_id s \<in> set (map ex_id (exercises (delete_exercise d i)))"
      using \<open>ex_id e = sess_exercise_id s\<close> by (metis image_eqI set_map)
  next
    fix t assume "t \<in> set (sets (delete_exercise d i))"
    then have t: "t \<in> set (sets d)"
      "\<forall>s\<in>set (sessions d). sess_exercise_id s = i \<longrightarrow> set_session_id t \<noteq> sess_id s"
      by (simp_all add: ss)
    then obtain s where s: "s \<in> set (sessions d)" "sess_id s = set_session_id t"
      using assms by (auto simp: ref_integrity_def)
    with t have "sess_exercise_id s \<noteq> i" by metis
    then have "s \<in> set (sessions (delete_exercise d i))" using s by (simp add: ss)
    then show "set_session_id t \<in> set (map sess_id (sessions (delete_exercise d i)))"
      using s(2) by (metis image_eqI set_map)
  qed
qed

lemma sessions_delete_session:
  "sessions (delete_session d sid) = filter (\<lambda>s. sess_id s \<noteq> sid) (sessions d)"
proof (cases "sid \<in> set (map sess_id (sessions d))")
  case True
  then show ?thesis by (simp add: delete_session_def)
next
  case False
  then have "filter (\<lambda>s. sess_id s \<noteq> sid) (sessions d) = sessions d"
    by (auto simp: filter_id_conv)
  with False show ?thesis by (simp add: delete_session_def)
qed

lemma sets_delete_session:
  "ref_integrity d \<Longrightarrow>
   sets (delete_session d sid) = filter (\<lambda>t. set_session_id t \<noteq> sid) (sets d)"
proof (cases "sid \<in> set (map sess_id (sessions d))")
  case True
  then show ?thesis by (simp add: delete_session_def)
next
  case False
  assume "ref_integrity d"
  then have "\<forall>t\<in>set (sets d). set_session_id t \<noteq> sid"
    using False unfolding ref_integrity_def by metis
  then have "filter (\<lambda>t. set_session_id t \<noteq> sid) (sets d) = sets d"
    by (simp add: filter_id_conv)
  with False show ?thesis by (simp add: delete_session_def)
qed

lemma exercises_delete_session: "exercises (delete_session d sid) = exercises d"
  by (simp add: delete_session_def)

lemma ref_integrity_delete_session:
  assumes "ref_integrity d" shows "ref_integrity (delete_session d sid)"
  unfolding ref_integrity_def
proof (intro conjI ballI)
  fix s assume "s \<in> set (sessions (delete_session d sid))"
  then have "s \<in> set (sessions d)" by (simp add: sessions_delete_session)
  then show "sess_exercise_id s \<in> set (map ex_id (exercises (delete_session d sid)))"
    using assms unfolding ref_integrity_def exercises_delete_session by blast
next
  fix t assume "t \<in> set (sets (delete_session d sid))"
  then have t: "t \<in> set (sets d)" "set_session_id t \<noteq> sid"
    by (simp_all add: sets_delete_session[OF assms])
  then obtain s where s: "s \<in> set (sessions d)" "sess_id s = set_session_id t"
    using assms by (auto simp: ref_integrity_def)
  then have "s \<in> set (sessions (delete_session d sid))"
    using t by (simp add: sessions_delete_session)
  then show "set_session_id t \<in> set (map sess_id (sessions (delete_session d sid)))"
    using s(2) by (metis image_eqI set_map)
qed

lemma ref_integrity_insert_exercise:
  "ref_integrity d \<Longrightarrow> insert_exercise d n b e no sg = Inr (d', k) \<Longrightarrow> ref_integrity d'"
  by (auto simp: ref_integrity_def insert_exercise_def Let_def split: if_splits)

lemma add_exercise_Inr:
  "add_exercise d n b e no sg = Inr (d', k) \<longleftrightarrow>
   insert_exercise d (strip n) (strip b) (strip e) (strip no) (strip sg) = Inr (d', k)"
  by (auto simp: add_exercise_def split: sum.splits error.splits)

lemma ref_integrity_add_exercise:
  "ref_integrity d \<Longrightarrow> add_exercise d n b e no sg = Inr (d', k) \<Longrightarrow> ref_integrity d'"
  unfolding add_exercise_Inr by (rule ref_integrity_insert_exercise)

lemma update_exercise_ids:
  "update_exercise d i n b e no sg = Inr d' \<Longrightarrow>
   map ex_id (exercises d') = map ex_id (exercises d) \<and> sessions d' = sessions d \<and> sets d' = sets d"
proof -
  assume "update_exercise d i n b e no sg = Inr d'"
  then have d': "d' = d\<lparr> exercises :=
                 map (\<lambda>r. if ex_id r = i
                           then r\<lparr> ex_name := strip n, ex_body_part := strip b,
                                   ex_equipment := strip e, ex_notes := strip no,
                                   ex_subgroup := strip sg \<rparr>
                           else r) (exercises d) \<rparr>"
    by (simp add: update_exercise_def split: if_splits)
  have "map ex_id (exercises d') = map ex_id (exercises d)"
    unfolding d' by (simp add: comp_def cong: map_cong)
  then show ?thesis by (simp add: d')
qed

lemma ref_integrity_update_exercise:
  "ref_integrity d \<Longrightarrow> update_exercise d i n b e no sg = Inr d' \<Longrightarrow> ref_integrity d'"
  by (drule update_exercise_ids) (simp add: ref_integrity_def)

lemma ref_integrity_add_session:
  "ref_integrity d \<Longrightarrow> add_session d i dt no = Inr (d', k) \<Longrightarrow> ref_integrity d'"
  by (auto simp: ref_integrity_def add_session_def Let_def split: if_splits)

lemma ref_integrity_add_set:
  "ref_integrity d \<Longrightarrow> add_set py d sid i w r rv u = Inr (d', k) \<Longrightarrow> ref_integrity d'"
  by (drule add_set_stored) (auto simp: ref_integrity_def)

lemma ref_integrity_preload:
  "ref_integrity d \<Longrightarrow> ref_integrity (preload d exs)"
  by (induction d exs rule: preload.induct)
     (auto split: sum.splits dest: ref_integrity_insert_exercise)

lemma ref_integrity_initial: "ref_integrity (ensure_preloaded empty_db)"
proof -
  have "ref_integrity empty_db" by (simp add: ref_integrity_def empty_db_def)
  then show ?thesis by (simp add: ensure_preloaded_def ref_integrity_preload)
qed

lemma delete_exercise_sessions:
  assumes "ref_integrity d"
  shows "\<forall>s\<in>set (sessions (delete_exercise d i)). sess_exercise_id s \<noteq> i"
proof (cases "i \<in> set (map ex_id (exercises d))")
  case True
  then show ?thesis by (simp add: sessions_delete_exercise)
next
  case False
  then have "\<forall>s\<in>set (sessions d). sess_exercise_id s \<noteq> i"
    using assms unfolding ref_integrity_def by metis
  with False show ?thesis by (simp add: delete_exercise_def)
qed

lemma get_sessions_empty:
  "\<forall>s\<in>set (sessions d). sess_exercise_id s \<noteq> i \<Longrightarrow> get_sessions_for_exercise d i = []"
proof -
  assume "\<forall>s\<in>set (sessions d). sess_exercise_id s \<noteq> i"
  then have "filter (\<lambda>s. sess_exercise_id s = i) (sessions d) = []"
    by (simp add: filter_empty_conv)
  then show ?thesis by (simp add: get_sessions_for_exercise_def)
qed

lemma delete_cascades_aux:
  "ref_integrity d \<Longrightarrow>
     i \<notin> set (map ex_id (exercises (delete_exercise d i))) \<and>
     get_sessions_for_exercise (delete_exercise d i) i = [] \<and>
     (\<forall>s\<in>set (sessions d). sess_exercise_id s = i \<longrightarrow>
        s \<notin> set (sessions (delete_exercise d i)) \<and>
        (\<forall>t\<in>set (sets (delete_exercise d i)). set_session_id t \<noteq> sess_id s)) \<and>
     sid \<notin> set (map sess_id (sessions (delete_session d sid))) \<and>
     (\<forall>t\<in>set (sets (delete_session d sid)). set_session_id t \<noteq> sid) \<and>
     get_sets_for_session (delete_session d sid) sid = [] \<and>
     ref_integrity (delete_exercise d i) \<and>
     ref_integrity (delete_session d sid) \<and>
     (\<forall>d' k. add_exercise d n b e no sg = Inr (d', k) \<longrightarrow> ref_integrity d') \<and>
     (\<forall>d'. update_exercise d i n b e no sg = Inr d' \<longrightarrow> ref_integrity d') \<and>
     (\<forall>d' k. add_session d i dt no = Inr (d', k) \<longrightarrow> ref_integrity d') \<and>
     (\<forall>d' k. add_set py d sid j w r rv u = Inr (d', k) \<longrightarrow> ref_integrity d')"
proof -
  assume ri: "ref_integrity d"
  have 1: "i \<notin> set (map ex_id (exercises (delete_exercise d i)))"
    by (auto simp: exercises_delete_exercise)
  have 2: "get_sessions_for_exercise (delete_exercise d i) i = []"
    using delete_exercise_sessions[OF ri] by (rule get_sessions_empty)
  have 3: "\<forall>s\<in>set (sessions d). sess_exercise_id s = i \<longrightarrow>
        s \<notin> set (sessions (delete_exercise d i)) \<and>
        (\<forall>t\<in>set (sets (delete_exercise d i)). set_session_id t \<noteq> sess_id s)"
  proof (intro ballI impI)
    fix s assume s: "s \<in> set (sessions d)" "sess_exercise_id s = i"
    then have ex: "i \<in> set (map ex_id (exercises d))"
      using ri unfolding ref_integrity_def by blast
    show "s \<notin> set (sessions (delete_exercise d i)) \<and>
        (\<forall>t\<in>set (sets (delete_exercise d i)). set_session_id t \<noteq> sess_id s)"
      using s by (auto simp: sessions_delete_exercise[OF ex] sets_delete_exercise[OF ex])
  qed
  have 4: "sid \<notin> set (map sess_id (sessions (delete_session d sid)))"
    by (auto simp: sessions_delete_session)
  have 5: "\<forall>t\<in>set (sets (delete_session d sid)). set_session_id t \<noteq> sid"
    by (simp add: sets_delete_session[OF ri])
  then have "filter (\<lambda>t. set_session_id t = sid) (sets (delete_session d sid)) = []"
    by (simp add: filter_empty_conv)
  then have 6: "get_sets_for_session (delete_session d sid) sid = []"
    by (simp add: get_sets_for_session_def)
  have 7: "\<forall>d' k. add_exercise d n b e no sg = Inr (d', k) \<longrightarrow> ref_integrity d'"
    using ref_integrity_add_exercise[OF ri] by blast
  have 8: "\<forall>d'. update_exercise d i n b e no sg = Inr d' \<longrightarrow> ref_integrity d'"
    using ref_integrity_update_exercise[OF ri] by blast
  have 9: "\<forall>d' k. add_session d i dt no = Inr (d', k) \<longrightarrow> ref_integrity d'"
    using ref_integrity_add_session[OF ri] by blast
  have 10: "\<forall>d' k. add_set py d sid j w r rv u = Inr (d', k) \<longrightarrow> ref_integrity d'"
    using ref_integrity_add_set[OF ri] by blast
  show ?thesis
    using 1 2 3 4 5 6 7 8 9 10 ref_integrity_delete_exercise[OF ri]
      ref_integrity_delete_session[OF ri]
    by simp
qed


text \<open>
  C5. In a store without orphans, \<open>delete_exercise\<close> removes the exercise, leaves no
  session of it (\<open>get_sessions_for_exercise\<close> is empty) and no set of any of its former
  sessions; \<open>delete_session\<close> removes the session and leaves no set of it. Every
  operation that changes the store (the two deletions, \<open>add_exercise\<close>,
  \<open>update_exercise\<close>, \<open>add_session\<close>, \<open>add_set\<close>) leaves it without orphans, and so
  is the store of the first start.
\<close>

theorem delete_cascades:
  "ref_integrity (ensure_preloaded empty_db) \<and>
   (ref_integrity d \<longrightarrow>
     i \<notin> set (map ex_id (exercises (delete_exercise d i))) \<and>
     get_sessions_for_exercise (delete_exercise d i) i = [] \<and>
     (\<forall>s\<in>set (sessions d). sess_exercise_id s = i \<longrightarrow>
        s \<notin> set (sessions (delete_exercise d i)) \<and>
        (\<forall>t\<in>set (sets (delete_exercise d i)). set_session_id t \<noteq> sess_id s)) \<and>
     sid \<notin> set (map sess_id (sessions (delete_session d sid))) \<and>
     (\<forall>t\<in>set (sets (delete_session d sid)). set_session_id t \<noteq> sid) \<and>
     get_sets_for_session (delete_session d sid) sid = [] \<and>
     ref_integrity (delete_exercise d i) \<and>
     ref_integrity (delete_session d sid) \<and>
     (\<forall>d' k. add_exercise d n b e no sg = Inr (d', k) \<longrightarrow> ref_integrity d') \<and>
     (\<forall>d'. update_exercise d i n b e no sg = Inr d' \<longrightarrow> ref_integrity d') \<and>
     (\<forall>d' k. add_session d i dt no = Inr (d', k) \<longrightarrow> ref_integrity d') \<and>
     (\<forall>d' k. add_set py d sid j w r rv u = Inr (d', k) \<longrightarrow> ref_integrity d'))"
  using ref_integrity_initial delete_cascades_aux[of d i sid n b e no sg dt py j w r rv u] by blast

lemma ref_integrity_sample_log: "ref_integrity sample_log"
  by (simp add: ref_integrity_def sample_log_def)

theorem delete_cascades_witness:
  "ref_integrity sample_log \<and>
   map ex_id (exercises (delete_exercise sample_log 1)) = [2] \<and>
   get_sessions_for_exercise (delete_exercise sample_log 1) 1 = [] \<and>
   map sess_id (sessions (delete_exercise sample_log 1)) = [3] \<and>
   sets (delete_exercise sample_log 1) = [] \<and>
   map sess_id (sessions (delete_session sample_log 1)) = [2, 3] \<and>
   map set_id (sets (delete_session sample_log 1)) = [3] \<and>
   get_sets_for_session (delete_session sample_log 1) 1 = [] \<and>
   ref_integrity (delete_exercise sample_log 1) \<and>
   ref_integrity (delete_session sample_log 1)"
proof -
  have e: "map ex_id (exercises (delete_exercise sample_log 1)) = [2]"
    "map sess_id (sessions (delete_exercise sample_log 1)) = [3]"
    "sets (delete_exercise sample_log 1) = []"
    by (simp_all add: delete_exercise_def sample_log_def)
  have s: "map sess_id (sessions (delete_session sample_log 1)) = [2, 3]"
    "map set_id (sets (delete_session sample_log 1)) = [3]"
    by (simp_all add: delete_session_def sample_log_def)
  show ?thesis
    using delete_cascades[where d = sample_log and i = 1 and sid = 1]
      ref_integrity_sample_log e s
    by simp
qed

section \<open>Properties of the exercise listing\<close>






















section \<open>Saving a session\<close>


























section \<open>Removing a set from the pending buffer\<close>

lemma rebuild_row_cells: "rebuild_row tk (i, it) = rebuild_row tk (i, ([], snd it))"
  by (cases it) (simp add: rebuild_row_def split: prod.splits)

lemma idx_rebuild_row: "idx (rebuild_row tk (i, it)) = int i"
  by (simp add: rebuild_row_def split: prod.splits)

lemma reread_fields:
  "idx (reread tk (i, b)) = int i"
  "weight (reread tk (i, b)) = tk (weight b)"
  "reps (reread tk (i, b)) = tk (reps b)"
  "rir (reread tk (i, b)) =
     (if tk (shown_rir (rir b)) \<noteq> PyStr [] then tk (shown_rir (rir b)) else PyNone)"
  "unit (reread tk (i, b)) = unit b"
  by (simp_all add: reread_def rebuild_row_def shown_def)

lemma filter_other_ids:
  assumes "distinct (map fst xs)" "k < length xs"
  shows "filter (\<lambda>it. fst it \<notin> set [fst (xs ! k)]) xs = take k xs @ drop (Suc k) xs"
proof -
  let ?x = "xs ! k"
  have xs: "xs = take k xs @ ?x # drop (Suc k) xs" using assms(2) by (rule id_take_nth_drop)
  have "distinct (map fst (take k xs) @ fst ?x # map fst (drop (Suc k) xs))"
    using assms(1) xs by (metis list.simps(9) map_append)
  then have a: "fst ?x \<notin> fst ` set (take k xs)" and b: "fst ?x \<notin> fst ` set (drop (Suc k) xs)"
    by auto
  have 1: "filter (\<lambda>it. fst it \<notin> set [fst ?x]) (take k xs) = take k xs"
  proof -
    have "\<forall>it\<in>set (take k xs). fst it \<notin> set [fst ?x]" using a by (metis image_eqI list.set(1,2) singletonD)
    then show ?thesis by (simp only: filter_id_conv)
  qed
  have 2: "filter (\<lambda>it. fst it \<notin> set [fst ?x]) (drop (Suc k) xs) = drop (Suc k) xs"
  proof -
    have "\<forall>it\<in>set (drop (Suc k) xs). fst it \<notin> set [fst ?x]" using b by (metis image_eqI list.set(1,2) singletonD)
    then show ?thesis by (simp only: filter_id_conv)
  qed
  have "filter (\<lambda>it. fst it \<notin> set [fst ?x]) xs =
      filter (\<lambda>it. fst it \<notin> set [fst ?x]) (take k xs @ ?x # drop (Suc k) xs)"
    using xs by simp
  also have "\<dots> = take k xs @ drop (Suc k) xs"
    unfolding filter_append filter.simps 1 2 by simp
  finally show ?thesis .
qed

lemma rebuild_enumerate:
  assumes "map snd kept = map shown bs"
  shows "map (rebuild_row tk) (List.enumerate n kept) = map (reread tk) (List.enumerate n bs)"
proof (rule nth_equalityI)
  have len: "length kept = length bs" using assms by (metis length_map)
  then show "length (map (rebuild_row tk) (List.enumerate n kept)) =
      length (map (reread tk) (List.enumerate n bs))" by simp
  fix j assume "j < length (map (rebuild_row tk) (List.enumerate n kept))"
  then have j: "j < length kept" "j < length bs" using len by simp_all
  have "snd (kept ! j) = shown (bs ! j)"
    using assms j by (metis nth_map)
  then show "map (rebuild_row tk) (List.enumerate n kept) ! j = map (reread tk) (List.enumerate n bs) ! j"
    using j by (simp add: nth_enumerate_eq reread_def rebuild_row_cells[of tk _ "kept ! j"])
qed

lemma zip_shown_fst:
  "length xs = length ys \<Longrightarrow> map fst (map (\<lambda>(it, b). (fst it, f b)) (zip xs ys)) = map fst xs"
  by (induction xs ys rule: list_induct2) auto

lemma zip_shown_snd:
  "length xs = length ys \<Longrightarrow> map snd (map (\<lambda>(it, b). (fst it, f b)) (zip xs ys)) = map f ys"
  by (induction xs ys rule: list_induct2) auto

lemma remove_one_set:
  assumes sync: "tree_shows_buffer a" and dist: "distinct (map fst (sets_tree a))"
    and k: "k < length (set_buffer a)" and sel: "sets_selection a = [fst (sets_tree a ! k)]"
  shows "set_buffer (fst (remove_set tk a)) =
           map (reread tk) (List.enumerate 1 (take k (set_buffer a) @ drop (Suc k) (set_buffer a)))"
    and "map fst (sets_tree (fst (remove_set tk a))) =
           take k (map fst (sets_tree a)) @ drop (Suc k) (map fst (sets_tree a))"
    and "tree_shows_buffer (fst (remove_set tk a))"
    and "snd (remove_set tk a) = None"
proof -
  let ?kept = "take k (sets_tree a) @ drop (Suc k) (sets_tree a)"
  let ?bs = "take k (set_buffer a) @ drop (Suc k) (set_buffer a)"
  let ?new = "map (rebuild_row tk) (List.enumerate 1 ?kept)"
  have len: "length (sets_tree a) = length (set_buffer a)"
    using sync unfolding tree_shows_buffer_def by (metis length_map)
  then have kt: "k < length (sets_tree a)" using k by simp
  have kept: "filter (\<lambda>it. fst it \<notin> set (sets_selection a)) (sets_tree a) = ?kept"
    unfolding sel by (rule filter_other_ids[OF dist kt])
  have res: "remove_set tk a =
      (a\<lparr> sets_tree := map (\<lambda>(it, b). (fst it, shown b)) (zip ?kept ?new),
          set_buffer := ?new, sets_selection := [] \<rparr>, None)"
    unfolding remove_set_def kept Let_def using sel by simp
  have "map snd ?kept = map shown ?bs"
    using sync unfolding tree_shows_buffer_def by (simp add: take_map[symmetric] drop_map[symmetric])
  then have new: "?new = map (reread tk) (List.enumerate 1 ?bs)" by (rule rebuild_enumerate)
  show "set_buffer (fst (remove_set tk a)) = map (reread tk) (List.enumerate 1 ?bs)"
    unfolding res using new by simp
  have lk: "length ?kept = length ?new" by simp
  have "map fst (map (\<lambda>(it, b). (fst it, shown b)) (zip ?kept ?new)) = map fst ?kept"
    using lk by (rule zip_shown_fst)
  then show "map fst (sets_tree (fst (remove_set tk a))) =
           take k (map fst (sets_tree a)) @ drop (Suc k) (map fst (sets_tree a))"
    unfolding res by (simp add: take_map drop_map)
  have "map snd (map (\<lambda>(it, b). (fst it, shown b)) (zip ?kept ?new)) = map shown ?new"
    using lk by (rule zip_shown_snd)
  then show "tree_shows_buffer (fst (remove_set tk a))"
    unfolding res tree_shows_buffer_def by simp
  show "snd (remove_set tk a) = None" unfolding res by simp
qed

lemma idx_reread_enumerate:
  "map idx (map (reread tk) (List.enumerate n bs)) = map int [n..<n + length bs]"
proof -
  have "map idx (map (reread tk) (List.enumerate n bs)) = map (int \<circ> fst) (List.enumerate n bs)"
    by (simp add: reread_def idx_rebuild_row comp_def)
  also have "\<dots> = map int (map fst (List.enumerate n bs))" by (simp only: map_map)
  finally show ?thesis by (simp only: map_fst_enumerate)
qed

lemma idx_remove_set:
  "sets_selection a \<noteq> [] \<Longrightarrow>
   map idx (set_buffer (fst (remove_set tk a))) =
     map int [1..<Suc (length (set_buffer (fst (remove_set tk a))))]"
proof -
  assume "sets_selection a \<noteq> []"
  then have buf: "set_buffer (fst (remove_set tk a)) =
      map (rebuild_row tk) (List.enumerate 1
        (filter (\<lambda>it. fst it \<notin> set (sets_selection a)) (sets_tree a)))"
    by (simp add: remove_set_def Let_def)
  have p: "idx (rebuild_row tk p) = int (fst p)" for p
    by (cases p) (simp add: idx_rebuild_row)
  have "map idx (map (rebuild_row tk) (List.enumerate n xs)) = map int [n..<n + length xs]"
    for n and xs :: "tree_item list"
    by (rule nth_equalityI) (simp_all add: p nth_enumerate_eq)
  then show ?thesis unfolding buf by simp
qed

text \<open>
  C7. Whatever is selected, the rebuilt buffer carries the indices 1, 2, ... up to its
  length. When the table shows the buffer of N sets, its item ids are distinct and the
  one selected item is the one at position k, the new buffer has N - 1 rows with the
  indices 1..N-1; its rows are, in the old order, the rows of the old buffer without
  the one at position k, each as read back from the table (weight, reps and rir as Tk
  hands the cell back, an empty rir cell as no rir, the unit as it was); the table keeps
  the items of the remaining rows in their order and shows the new buffer.
\<close>

theorem remove_set_reindexes:
  "(sets_selection a \<noteq> [] \<longrightarrow>
      map idx (set_buffer (fst (remove_set tk a))) =
        map int [1..<Suc (length (set_buffer (fst (remove_set tk a))))]) \<and>
   (tree_shows_buffer a \<and> distinct (map fst (sets_tree a)) \<and> k < length (set_buffer a) \<and>
    sets_selection a = [fst (sets_tree a ! k)] \<longrightarrow>
      length (set_buffer (fst (remove_set tk a))) = length (set_buffer a) - 1 \<and>
      map idx (set_buffer (fst (remove_set tk a))) = map int [1..<length (set_buffer a)] \<and>
      set_buffer (fst (remove_set tk a)) =
        map (reread tk) (List.enumerate 1 (take k (set_buffer a) @ drop (Suc k) (set_buffer a))) \<and>
      map fst (sets_tree (fst (remove_set tk a))) =
        take k (map fst (sets_tree a)) @ drop (Suc k) (map fst (sets_tree a)) \<and>
      tree_shows_buffer (fst (remove_set tk a)) \<and>
      snd (remove_set tk a) = None) \<and>
   (\<forall>i b. idx (reread tk (i, b)) = int i \<and>
      weight (reread tk (i, b)) = tk (weight b) \<and>
      reps (reread tk (i, b)) = tk (reps b) \<and>
      rir (reread tk (i, b)) =
        (if tk (shown_rir (rir b)) \<noteq> PyStr [] then tk (shown_rir (rir b)) else PyNone) \<and>
      unit (reread tk (i, b)) = unit b)"
proof (intro conjI impI allI)
  assume "sets_selection a \<noteq> []"
  then show "map idx (set_buffer (fst (remove_set tk a))) =
        map int [1..<Suc (length (set_buffer (fst (remove_set tk a))))]"
    by (rule idx_remove_set)
next
  assume h: "tree_shows_buffer a \<and> distinct (map fst (sets_tree a)) \<and> k < length (set_buffer a) \<and>
    sets_selection a = [fst (sets_tree a ! k)]"
  then have 1: "tree_shows_buffer a" and 2: "distinct (map fst (sets_tree a))"
    and 3: "k < length (set_buffer a)" and 4: "sets_selection a = [fst (sets_tree a ! k)]"
    by blast+
  note r = remove_one_set[OF 1 2 3 4, of tk]
  show buf: "set_buffer (fst (remove_set tk a)) =
        map (reread tk) (List.enumerate 1 (take k (set_buffer a) @ drop (Suc k) (set_buffer a)))"
    by (rule r(1))
  show "map fst (sets_tree (fst (remove_set tk a))) =
        take k (map fst (sets_tree a)) @ drop (Suc k) (map fst (sets_tree a))"
    by (rule r(2))
  show "tree_shows_buffer (fst (remove_set tk a))" by (rule r(3))
  show "snd (remove_set tk a) = None" by (rule r(4))
  have len: "length (take k (set_buffer a) @ drop (Suc k) (set_buffer a)) = length (set_buffer a) - 1"
    using 3 by simp
  show "length (set_buffer (fst (remove_set tk a))) = length (set_buffer a) - 1"
    unfolding buf using len by simp
  have "map idx (set_buffer (fst (remove_set tk a))) =
      map int [1..<1 + length (take k (set_buffer a) @ drop (Suc k) (set_buffer a))]"
    unfolding buf by (rule idx_reread_enumerate)
  also have "1 + length (take k (set_buffer a) @ drop (Suc k) (set_buffer a)) = length (set_buffer a)"
    unfolding len using 3 by simp
  finally show "map idx (set_buffer (fst (remove_set tk a))) = map int [1..<length (set_buffer a)]" .
qed (simp_all add: reread_fields)

theorem remove_set_reindexes_witness:
  "tree_shows_buffer three_sets_draft \<and>
   distinct (map fst (sets_tree three_sets_draft)) \<and>
   1 < length (set_buffer three_sets_draft) \<and>
   sets_selection three_sets_draft = [fst (sets_tree three_sets_draft ! 1)] \<and>
   map idx (set_buffer (fst (remove_set (\<lambda>v. v) three_sets_draft))) = [1, 2] \<and>
   set_buffer (fst (remove_set (\<lambda>v. v) three_sets_draft)) =
     [\<lparr> idx = 1, weight = PyFloat (Fin 100), reps = PyInt 8, rir = PyNone, unit = ''lbs'' \<rparr>,
      \<lparr> idx = 2, weight = PyFloat (Fin 95), reps = PyInt 6, rir = PyInt 0, unit = ''lbs'' \<rparr>] \<and>
   map fst (sets_tree (fst (remove_set (\<lambda>v. v) three_sets_draft))) = [''I001'', ''I003'']"
proof -
  have buf: "set_buffer three_sets_draft =
         [\<lparr> idx = 1, weight = PyFloat (Fin 100), reps = PyInt 8, rir = PyNone, unit = ''lbs'' \<rparr>,
          \<lparr> idx = 2, weight = PyFloat (Fin 100), reps = PyInt 7, rir = PyInt 1, unit = ''lbs'' \<rparr>,
          \<lparr> idx = 3, weight = PyFloat (Fin 95), reps = PyInt 6, rir = PyInt 0, unit = ''lbs'' \<rparr>]"
    and tree: "sets_tree three_sets_draft =
         [(''I001'', (1, PyFloat (Fin 100), PyInt 8, PyStr [], ''lbs'')),
          (''I002'', (2, PyFloat (Fin 100), PyInt 7, PyInt 1, ''lbs'')),
          (''I003'', (3, PyFloat (Fin 95), PyInt 6, PyInt 0, ''lbs''))]"
    and sel: "sets_selection three_sets_draft = [''I002'']"
    by (simp_all add: three_sets_draft_def)
  have h: "tree_shows_buffer three_sets_draft \<and>
     distinct (map fst (sets_tree three_sets_draft)) \<and>
     1 < length (set_buffer three_sets_draft) \<and>
     sets_selection three_sets_draft = [fst (sets_tree three_sets_draft ! 1)]"
    by (simp add: tree_shows_buffer_def buf tree sel shown_def shown_rir_def)
  note t = remove_set_reindexes[of three_sets_draft "\<lambda>v. v" 1, THEN conjunct2, THEN conjunct1,
      rule_format, OF h]
  have b: "set_buffer (fst (remove_set (\<lambda>v. v) three_sets_draft)) =
     [\<lparr> idx = 1, weight = PyFloat (Fin 100), reps = PyInt 8, rir = PyNone, unit = ''lbs'' \<rparr>,
      \<lparr> idx = 2, weight = PyFloat (Fin 95), reps = PyInt 6, rir = PyInt 0, unit = ''lbs'' \<rparr>]"
    using t by (simp add: buf reread_def rebuild_row_def shown_def shown_rir_def List.enumerate_eq_zip)
  have i: "map fst (sets_tree (fst (remove_set (\<lambda>v. v) three_sets_draft))) = [''I001'', ''I003'']"
    using t by (simp add: tree)
  show ?thesis using h b i by simp
qed

end
